theory Spec2Isabelle
  imports Complex_Main "HOL-Library.Char_ord" "HOL-Library.List_Lexorder"
begin

section \<open>Data model\<close>

text \<open>
  The backend keeps its data in relational tables reached through the Prisma client.
  A table is modelled as the list of its rows in storage order, a row as a record.
  Row identifiers (strings generated by the database in the source) are natural
  numbers here; instants (JavaScript \<open>Date\<close>) are milliseconds since the epoch;
  quantities (JavaScript numbers) are rationals.
\<close>

type_synonym ident = nat
type_synonym instant = int

record Family =
  fam_id :: ident
  fam_name :: string
  fam_inviteCode :: string
  fam_ownerId :: ident

record FamilyMember =
  fm_id :: ident
  fm_familyId :: ident
  fm_userId :: ident
  fm_role :: string
  fm_isActive :: bool

record InventoryItem =
  item_id :: ident
  item_familyId :: ident
  item_name :: string
  item_quantity :: rat
  item_unit :: string
  item_category :: string
  item_barcode :: "string option"
  item_expiryDate :: "instant option"
  item_imageUrl :: "string option"
  item_notes :: "string option"
  item_addedBy :: ident
  item_createdAt :: instant
  item_updatedAt :: instant
  item_isActive :: bool

record Merchant =
  mer_id :: ident
  mer_familyId :: ident
  mer_name :: string
  mer_isActive :: bool

record Order =
  ord_id :: ident
  ord_familyId :: ident
  ord_merchantId :: "ident option"
  ord_notes :: "string option"
  ord_createdBy :: ident
  ord_status :: string
  ord_createdAt :: instant
  ord_updatedAt :: instant
  ord_completedAt :: "instant option"

record OrderItem =
  oi_id :: ident
  oi_orderId :: ident
  oi_name :: string
  oi_quantity :: rat
  oi_unit :: string
  oi_notes :: "string option"
  oi_inventoryItemId :: "ident option"

record Notification =
  ntf_id :: ident
  ntf_familyId :: ident
  ntf_type :: string
  ntf_title :: string
  ntf_message :: string
  ntf_recipients :: "ident list"
  ntf_data :: "string option"
  ntf_sentAt :: instant

record NotificationRead =
  nr_id :: ident
  nr_notificationId :: ident
  nr_userId :: ident
  nr_readAt :: instant

record db =
  families :: "Family list"
  familyMembers :: "FamilyMember list"
  inventoryItems :: "InventoryItem list"
  merchants :: "Merchant list"
  orders :: "Order list"
  orderItems :: "OrderItem list"
  notifications :: "Notification list"
  notificationReads :: "NotificationRead list"

definition emptyDb :: db where
  "emptyDb = \<lparr>families = [], familyMembers = [], inventoryItems = [], merchants = [],
     orders = [], orderItems = [], notifications = [], notificationReads = []\<rparr>"

text \<open>
  Every handler answers either with an error response or with a payload. The error
  constructors name the responses of the source; \<open>httpStatus\<close> and \<open>errorMessage\<close>
  give the status code and the message each one carries.
\<close>

datatype error =
    ValidationError
  | NotPartOfFamily
  | AlreadyMember
  | InvalidInviteCode
  | ItemNotFound
  | MerchantNotFound
  | OrderNotFound
  | NotificationNotFound
  | InternalError

fun httpStatus :: "error \<Rightarrow> nat" where
  "httpStatus ValidationError = 400"
| "httpStatus NotPartOfFamily = 404"
| "httpStatus AlreadyMember = 400"
| "httpStatus InvalidInviteCode = 404"
| "httpStatus ItemNotFound = 404"
| "httpStatus MerchantNotFound = 404"
| "httpStatus OrderNotFound = 404"
| "httpStatus NotificationNotFound = 404"
| "httpStatus InternalError = 500"

fun errorMessage :: "error \<Rightarrow> string" where
  "errorMessage ValidationError = ''Validation error''"
| "errorMessage NotPartOfFamily = ''User not part of any family''"
| "errorMessage AlreadyMember = ''User already belongs to a family''"
| "errorMessage InvalidInviteCode = ''Invalid invite code''"
| "errorMessage ItemNotFound = ''Item not found''"
| "errorMessage MerchantNotFound = ''Merchant not found''"
| "errorMessage OrderNotFound = ''Order not found''"
| "errorMessage NotificationNotFound = ''Notification not found''"
| "errorMessage InternalError = ''Internal server error''"

section \<open>Database primitives\<close>

text \<open>
  \<open>findFirst\<close> of the Prisma client is \<open>List.find\<close> on the table, \<open>count\<close> is the
  length of the filtered table, \<open>create\<close> appends a row and \<open>update\<close> rewrites the rows
  the \<open>where\<close> clause selects.
\<close>

definition updateWhere :: "('a \<Rightarrow> bool) \<Rightarrow> ('a \<Rightarrow> 'a) \<Rightarrow> 'a list \<Rightarrow> 'a list" where
  "updateWhere P f rows = map (\<lambda>r. if P r then f r else r) rows"

definition countWhere :: "('a \<Rightarrow> bool) \<Rightarrow> 'a list \<Rightarrow> nat" where
  "countWhere P rows = length (filter P rows)"

text \<open>
  Modelled from the spec: the Prisma schema, which declares the identifier default of
  each table, is missing from the sources. The identifier given to a created row is the
  successor of the largest identifier in use, so that a created row never shares its
  identifier with a stored one.
\<close>

definition freshId :: "ident list \<Rightarrow> ident" where
  "freshId ids = Suc (foldr max ids 0)"

text \<open>
  The insensitive mode of the string filters is carried out by the database. It is
  modelled by comparing the strings after mapping the letters A to Z to lower case.
\<close>

definition toLowerChar :: "char \<Rightarrow> char" where
  "toLowerChar c =
     (case map_of (zip ''ABCDEFGHIJKLMNOPQRSTUVWXYZ'' ''abcdefghijklmnopqrstuvwxyz'') c of
        None \<Rightarrow> c
      | Some l \<Rightarrow> l)"

definition toLower :: "string \<Rightarrow> string" where
  "toLower s = map toLowerChar s"

definition equalsInsensitive :: "string \<Rightarrow> string \<Rightarrow> bool" where
  "equalsInsensitive a b = (toLower a = toLower b)"




section \<open>Family directory\<close>

text \<open>
  Every handler starts by looking up the caller's membership row:
  \<^verbatim>\<open>prisma.familyMember.findFirst({ where: { userId }, include: { family: true } })\<close>
  and then works with \<open>familyMember.family.id\<close>. The lookup has no filter on the
  \<open>isActive\<close> column of the membership.
\<close>

definition findMembership :: "db \<Rightarrow> ident \<Rightarrow> FamilyMember option" where
  "findMembership s userId = find (\<lambda>m. fm_userId m = userId) (familyMembers s)"

definition resolveMembership :: "db \<Rightarrow> ident \<Rightarrow> ident option" where
  "resolveMembership s userId = map_option fm_familyId (findMembership s userId)"

section \<open>Inventory ledger\<close>

text \<open>
  Request bodies carry the fields the validators look at. A field that is absent is
  \<open>None\<close>. A date field holds either a well-formed ISO 8601 date, already read as an
  instant, or something that the validator \<open>isISO8601\<close> turns down; likewise for
  the image URL and \<open>isURL\<close>.
\<close>

datatype date_input = IsoDate instant | NotIso

datatype url_input = Url string | NotUrl

fun toDate :: "date_input option \<Rightarrow> instant option" where
  "toDate (Some (IsoDate d)) = Some d"
| "toDate (Some NotIso) = None"
| "toDate None = None"

fun toUrl :: "url_input option \<Rightarrow> string option" where
  "toUrl (Some (Url u)) = Some u"
| "toUrl (Some NotUrl) = None"
| "toUrl None = None"

definition lengthBetween :: "nat \<Rightarrow> nat \<Rightarrow> string \<Rightarrow> bool" where
  "lengthBetween lo hi str = (lo \<le> length str \<and> length str \<le> hi)"

subsection \<open>POST /inventory\<close>

record addItemBody =
  ab_name :: "string option"
  ab_quantity :: "rat option"
  ab_unit :: "string option"
  ab_category :: "string option"
  ab_barcode :: "string option"
  ab_expiryDate :: "date_input option"
  ab_imageUrl :: "url_input option"
  ab_notes :: "string option"

definition validAddItem :: "addItemBody \<Rightarrow> bool" where
  "validAddItem body =
     ((case ab_name body of None \<Rightarrow> False | Some n \<Rightarrow> lengthBetween 1 200 n)
      \<and> (case ab_quantity body of None \<Rightarrow> False | Some q \<Rightarrow> 0 \<le> q)
      \<and> ab_category body \<noteq> None
      \<and> ab_expiryDate body \<noteq> Some NotIso
      \<and> ab_imageUrl body \<noteq> Some NotUrl)"

record addItemResult =
  ar_item :: InventoryItem
  ar_isDuplicate :: bool
  ar_previousQuantity :: rat

definition isDuplicateOf :: "ident \<Rightarrow> string \<Rightarrow> InventoryItem \<Rightarrow> bool" where
  "isDuplicateOf familyId name i =
     (item_familyId i = familyId \<and> equalsInsensitive (item_name i) name \<and> item_isActive i)"

text \<open>
  Modelled from the spec: the Prisma schema, which declares the column defaults of the
  item table, is missing from the sources. A created item is active, and its \<open>createdAt\<close>
  and \<open>updatedAt\<close> are the time of the call.
\<close>

definition newItem :: "ident \<Rightarrow> ident \<Rightarrow> ident \<Rightarrow> string \<Rightarrow> rat \<Rightarrow> string \<Rightarrow> addItemBody
    \<Rightarrow> instant \<Rightarrow> InventoryItem" where
  "newItem newId familyId userId name quantity category body now =
     \<lparr>item_id = newId,
      item_familyId = familyId,
      item_name = name,
      item_quantity = quantity,
      item_unit = (case ab_unit body of None \<Rightarrow> ''pieces'' | Some u \<Rightarrow> u),
      item_category = category,
      item_barcode = ab_barcode body,
      item_expiryDate = toDate (ab_expiryDate body),
      item_imageUrl = toUrl (ab_imageUrl body),
      item_notes = ab_notes body,
      item_addedBy = userId,
      item_createdAt = now,
      item_updatedAt = now,
      item_isActive = True\<rparr>"

definition addItem :: "db \<Rightarrow> ident \<Rightarrow> addItemBody \<Rightarrow> instant \<Rightarrow> (error + addItemResult) \<times> db" where
  "addItem s userId body now =
     (if \<not> validAddItem body then (Inl ValidationError, s)
      else case (ab_name body, ab_quantity body, ab_category body) of
        (Some name, Some quantity, Some category) \<Rightarrow>
          (case resolveMembership s userId of
             None \<Rightarrow> (Inl NotPartOfFamily, s)
           | Some familyId \<Rightarrow>
               (case find (isDuplicateOf familyId name) (inventoryItems s) of
                  Some existingItem \<Rightarrow>
                    (let data = (\<lambda>r. r\<lparr>item_quantity := item_quantity existingItem + quantity,
                                         item_updatedAt := now\<rparr>)
                     in (Inr \<lparr>ar_item = data existingItem, ar_isDuplicate = True,
                               ar_previousQuantity = item_quantity existingItem\<rparr>,
                         s\<lparr>inventoryItems :=
                             updateWhere (\<lambda>r. item_id r = item_id existingItem) data
                               (inventoryItems s)\<rparr>))
                | None \<Rightarrow>
                    (let item = newItem (freshId (map item_id (inventoryItems s))) familyId
                                  userId name quantity category body now
                     in (Inr \<lparr>ar_item = item, ar_isDuplicate = False, ar_previousQuantity = 0\<rparr>,
                         s\<lparr>inventoryItems := inventoryItems s @ [item]\<rparr>))))
      | _ \<Rightarrow> (Inl ValidationError, s))"

subsection \<open>PATCH /inventory/:itemId\<close>

record updateItemBody =
  ub_quantity :: "rat option"
  ub_expiryDate :: "date_input option"
  ub_name :: "string option"
  ub_category :: "string option"
  ub_notes :: "string option"

definition validUpdateItem :: "updateItemBody \<Rightarrow> bool" where
  "validUpdateItem body =
     ((case ub_quantity body of None \<Rightarrow> True | Some q \<Rightarrow> 0 \<le> q)
      \<and> ub_expiryDate body \<noteq> Some NotIso
      \<and> (case ub_name body of None \<Rightarrow> True | Some n \<Rightarrow> lengthBetween 1 200 n))"

text \<open>
  \<open>updateData\<close> is the object the handler fills with one key per field present in the
  body: \<open>applyUpdateData\<close> is what writing it does to a row and \<open>updateDataKeys\<close> is
  \<open>Object.keys(updateData)\<close>, in insertion order.
\<close>

definition applyUpdateData :: "updateItemBody \<Rightarrow> InventoryItem \<Rightarrow> InventoryItem" where
  "applyUpdateData body r =
     (let r1 = (case ub_quantity body of None \<Rightarrow> r | Some q \<Rightarrow> r\<lparr>item_quantity := q\<rparr>);
          r2 = (case ub_expiryDate body of None \<Rightarrow> r1
                | Some d \<Rightarrow> r1\<lparr>item_expiryDate := toDate (Some d)\<rparr>);
          r3 = (case ub_name body of None \<Rightarrow> r2 | Some n \<Rightarrow> r2\<lparr>item_name := n\<rparr>);
          r4 = (case ub_category body of None \<Rightarrow> r3 | Some c \<Rightarrow> r3\<lparr>item_category := c\<rparr>);
          r5 = (case ub_notes body of None \<Rightarrow> r4 | Some n \<Rightarrow> r4\<lparr>item_notes := Some n\<rparr>)
      in r5)"

definition updateDataKeys :: "updateItemBody \<Rightarrow> string list" where
  "updateDataKeys body =
     (if ub_quantity body \<noteq> None then [''quantity''] else [])
     @ (if ub_expiryDate body \<noteq> None then [''expiryDate''] else [])
     @ (if ub_name body \<noteq> None then [''name''] else [])
     @ (if ub_category body \<noteq> None then [''category''] else [])
     @ (if ub_notes body \<noteq> None then [''notes''] else [])"

record updateItemResult =
  ur_item :: InventoryItem
  ur_updated :: "string list"

definition isLiveItemOf :: "ident \<Rightarrow> ident \<Rightarrow> InventoryItem \<Rightarrow> bool" where
  "isLiveItemOf itemId familyId i =
     (item_id i = itemId \<and> item_familyId i = familyId \<and> item_isActive i)"

definition updateItem :: "db \<Rightarrow> ident \<Rightarrow> ident \<Rightarrow> updateItemBody \<Rightarrow> instant
    \<Rightarrow> (error + updateItemResult) \<times> db" where
  "updateItem s userId itemId body now =
     (if \<not> validUpdateItem body then (Inl ValidationError, s)
      else case resolveMembership s userId of
        None \<Rightarrow> (Inl NotPartOfFamily, s)
      | Some familyId \<Rightarrow>
          (case find (isLiveItemOf itemId familyId) (inventoryItems s) of
             None \<Rightarrow> (Inl ItemNotFound, s)
           | Some existingItem \<Rightarrow>
               (let data = (\<lambda>r. (applyUpdateData body r)\<lparr>item_updatedAt := now\<rparr>)
                in (Inr \<lparr>ur_item = data existingItem, ur_updated = updateDataKeys body\<rparr>,
                    s\<lparr>inventoryItems :=
                        updateWhere (\<lambda>r. item_id r = itemId) data (inventoryItems s)\<rparr>))))"

subsection \<open>DELETE /inventory/:itemId\<close>

definition deleteItem :: "db \<Rightarrow> ident \<Rightarrow> ident \<Rightarrow> instant \<Rightarrow> (error + unit) \<times> db" where
  "deleteItem s userId itemId now =
     (case resolveMembership s userId of
        None \<Rightarrow> (Inl NotPartOfFamily, s)
      | Some familyId \<Rightarrow>
          (case find (isLiveItemOf itemId familyId) (inventoryItems s) of
             None \<Rightarrow> (Inl ItemNotFound, s)
           | Some existingItem \<Rightarrow>
               (Inr (),
                s\<lparr>inventoryItems :=
                    updateWhere (\<lambda>r. item_id r = itemId)
                      (\<lambda>r. r\<lparr>item_isActive := False, item_updatedAt := now\<rparr>)
                      (inventoryItems s)\<rparr>)))"

subsection \<open>GET /inventory\<close>



text \<open>A string is truthy in JavaScript when it is present and not empty.\<close>

fun truthy :: "string option \<Rightarrow> bool" where
  "truthy None = False"
| "truthy (Some str) = (str \<noteq> [])"




fun insertBy :: "('a \<Rightarrow> 'a \<Rightarrow> bool) \<Rightarrow> 'a \<Rightarrow> 'a list \<Rightarrow> 'a list" where
  "insertBy le x [] = [x]"
| "insertBy le x (y # ys) = (if le x y then x # y # ys else y # insertBy le x ys)"

definition sortRowsBy :: "('a \<Rightarrow> 'a \<Rightarrow> bool) \<Rightarrow> 'a list \<Rightarrow> 'a list" where
  "sortRowsBy le rows = foldr (insertBy le) rows []"




section \<open>Family directory: creating and joining\<close>

record createFamilyBody =
  cf_name :: "string option"

definition validCreateFamily :: "createFamilyBody \<Rightarrow> bool" where
  "validCreateFamily body =
     (case cf_name body of None \<Rightarrow> False | Some n \<Rightarrow> lengthBetween 1 100 n)"

record createFamilyResult =
  cr_family :: Family
  cr_members :: "FamilyMember list"

text \<open>
  Modelled from the spec: the Prisma schema, which declares the column defaults of the
  membership table, is missing from the sources. A created membership is active.

  The invite code comes from \<open>Math.random\<close>, so it is an argument of the model. The
  handler looks families up with \<open>findUnique\<close> on the invite code, so the column is
  unique in the schema: creating a family under a code already in use makes the
  database raise, the handler's \<open>catch\<close> answers 500, and nothing is written.
\<close>

definition createFamily :: "db \<Rightarrow> ident \<Rightarrow> createFamilyBody \<Rightarrow> string
    \<Rightarrow> (error + createFamilyResult) \<times> db" where
  "createFamily s userId body code =
     (if \<not> validCreateFamily body then (Inl ValidationError, s)
      else case cf_name body of
        None \<Rightarrow> (Inl ValidationError, s)
      | Some name \<Rightarrow>
          (case findMembership s userId of
             Some existingFamily \<Rightarrow> (Inl AlreadyMember, s)
           | None \<Rightarrow>
               (if code \<in> set (map fam_inviteCode (families s)) then (Inl InternalError, s)
                else
                  (let family = \<lparr>fam_id = freshId (map fam_id (families s)), fam_name = name,
                                  fam_inviteCode = code, fam_ownerId = userId\<rparr>;
                       member = \<lparr>fm_id = freshId (map fm_id (familyMembers s)),
                                  fm_familyId = fam_id family, fm_userId = userId,
                                  fm_role = ''owner'', fm_isActive = True\<rparr>
                   in (Inr \<lparr>cr_family = family, cr_members = [member]\<rparr>,
                       s\<lparr>families := families s @ [family],
                         familyMembers := familyMembers s @ [member]\<rparr>)))))"

record joinFamilyBody =
  jf_inviteCode :: "string option"

definition validJoinFamily :: "joinFamilyBody \<Rightarrow> bool" where
  "validJoinFamily body =
     (case jf_inviteCode body of None \<Rightarrow> False | Some c \<Rightarrow> lengthBetween 6 6 c)"

definition joinFamily :: "db \<Rightarrow> ident \<Rightarrow> joinFamilyBody \<Rightarrow> (error + ident \<times> string) \<times> db" where
  "joinFamily s userId body =
     (if \<not> validJoinFamily body then (Inl ValidationError, s)
      else case jf_inviteCode body of
        None \<Rightarrow> (Inl ValidationError, s)
      | Some inviteCode \<Rightarrow>
          (case findMembership s userId of
             Some existingFamily \<Rightarrow> (Inl AlreadyMember, s)
           | None \<Rightarrow>
               (case find (\<lambda>f. fam_inviteCode f = inviteCode) (families s) of
                  None \<Rightarrow> (Inl InvalidInviteCode, s)
                | Some family \<Rightarrow>
                    (Inr (fam_id family, fam_name family),
                     s\<lparr>familyMembers := familyMembers s @
                         [\<lparr>fm_id = freshId (map fm_id (familyMembers s)),
                           fm_familyId = fam_id family, fm_userId = userId,
                           fm_role = ''member'', fm_isActive = True\<rparr>]\<rparr>))))"

section \<open>Order aggregator\<close>

record orderItemInput =
  oin_inventoryItemId :: "ident option"
  oin_name :: "string option"
  oin_quantity :: "rat option"
  oin_unit :: "string option"
  oin_notes :: "string option"

record createOrderBody =
  co_merchantId :: "ident option"
  co_items :: "orderItemInput list option"
  co_notes :: "string option"

definition validOrderItem :: "orderItemInput \<Rightarrow> bool" where
  "validOrderItem i =
     ((case oin_name i of None \<Rightarrow> False | Some n \<Rightarrow> lengthBetween 1 200 n)
      \<and> (case oin_quantity i of None \<Rightarrow> False | Some q \<Rightarrow> 1 / 10 \<le> q))"

text \<open>
  \<open>body('items').isArray({ min: 1 })\<close>: the field must be an array with at least one
  element; \<open>None\<close> stands for a body without such an array.
\<close>

definition validCreateOrder :: "createOrderBody \<Rightarrow> bool" where
  "validCreateOrder body =
     (case co_items body of
        None \<Rightarrow> False
      | Some items \<Rightarrow> 1 \<le> length items \<and> list_all validOrderItem items)"

text \<open>
  The rows of one nested \<open>create\<close>, with consecutive identifiers from \<open>base\<close> on.
  A row whose input lacks a name or a quantity cannot come out of a validated body; the
  model gives it an empty name and quantity 0.
\<close>

fun newOrderItems :: "ident \<Rightarrow> ident \<Rightarrow> orderItemInput list \<Rightarrow> OrderItem list" where
  "newOrderItems orderId base [] = []"
| "newOrderItems orderId base (item # rest) =
     \<lparr>oi_id = base,
      oi_orderId = orderId,
      oi_name = (case oin_name item of None \<Rightarrow> [] | Some n \<Rightarrow> n),
      oi_quantity = (case oin_quantity item of None \<Rightarrow> 0 | Some q \<Rightarrow> q),
      oi_unit = (if truthy (oin_unit item) then (case oin_unit item of None \<Rightarrow> [] | Some u \<Rightarrow> u)
                 else ''pieces''),
      oi_notes = oin_notes item,
      oi_inventoryItemId = oin_inventoryItemId item\<rparr>
     # newOrderItems orderId (Suc base) rest"

record createOrderResult =
  or_order :: Order
  or_items :: "OrderItem list"

definition isLiveMerchantOf :: "ident \<Rightarrow> ident \<Rightarrow> Merchant \<Rightarrow> bool" where
  "isLiveMerchantOf merchantId familyId m =
     (mer_id m = merchantId \<and> mer_familyId m = familyId \<and> mer_isActive m)"

text \<open>
  Modelled from the spec: the Prisma schema, which declares the column defaults of the
  order table, is missing from the sources. A created order has the status \<open>pending\<close>,
  no completion time, and the time of the call as \<open>createdAt\<close> and \<open>updatedAt\<close>.
\<close>

definition createOrder :: "db \<Rightarrow> ident \<Rightarrow> createOrderBody \<Rightarrow> instant
    \<Rightarrow> (error + createOrderResult) \<times> db" where
  "createOrder s userId body now =
     (if \<not> validCreateOrder body then (Inl ValidationError, s)
      else case co_items body of
        None \<Rightarrow> (Inl ValidationError, s)
      | Some items \<Rightarrow>
          (case resolveMembership s userId of
             None \<Rightarrow> (Inl NotPartOfFamily, s)
           | Some familyId \<Rightarrow>
               (if (case co_merchantId body of
                      None \<Rightarrow> False
                    | Some merchantId \<Rightarrow>
                        find (isLiveMerchantOf merchantId familyId) (merchants s) = None)
                then (Inl MerchantNotFound, s)
                else
                  (let order = \<lparr>ord_id = freshId (map ord_id (orders s)),
                                 ord_familyId = familyId,
                                 ord_merchantId = co_merchantId body,
                                 ord_notes = co_notes body,
                                 ord_createdBy = userId,
                                 ord_status = ''pending'',
                                 ord_createdAt = now,
                                 ord_updatedAt = now,
                                 ord_completedAt = None\<rparr>;
                       rows = newOrderItems (ord_id order)
                                (freshId (map oi_id (orderItems s))) items
                   in (Inr \<lparr>or_order = order, or_items = rows\<rparr>,
                       s\<lparr>orders := orders s @ [order],
                         orderItems := orderItems s @ rows\<rparr>)))))"

definition validStatus :: "string option \<Rightarrow> bool" where
  "validStatus st =
     (case st of None \<Rightarrow> False
      | Some v \<Rightarrow> v \<in> set [''pending'', ''processing'', ''completed'', ''cancelled''])"

definition updateOrderStatus :: "db \<Rightarrow> ident \<Rightarrow> ident \<Rightarrow> string option \<Rightarrow> instant
    \<Rightarrow> (error + Order) \<times> db" where
  "updateOrderStatus s userId orderId st now =
     (if \<not> validStatus st then (Inl ValidationError, s)
      else case st of
        None \<Rightarrow> (Inl ValidationError, s)
      | Some status \<Rightarrow>
          (case resolveMembership s userId of
             None \<Rightarrow> (Inl NotPartOfFamily, s)
           | Some familyId \<Rightarrow>
               (case find (\<lambda>ord. ord_id ord = orderId \<and> ord_familyId ord = familyId) (orders s) of
                  None \<Rightarrow> (Inl OrderNotFound, s)
                | Some existingOrder \<Rightarrow>
                    (let data = (\<lambda>r. if status = ''completed''
                                      then r\<lparr>ord_status := status, ord_updatedAt := now,
                                             ord_completedAt := Some now\<rparr>
                                      else r\<lparr>ord_status := status, ord_updatedAt := now\<rparr>)
                     in (Inr (data existingOrder),
                         s\<lparr>orders := updateWhere (\<lambda>r. ord_id r = orderId) data (orders s)\<rparr>)))))"

section \<open>Notification fan-out and read tracking\<close>

text \<open>
  The filter \<open>reads: { none: { userId } }\<close> keeps the notifications none of whose read
  rows belongs to the user.
\<close>

definition hasReadRow :: "db \<Rightarrow> ident \<Rightarrow> ident \<Rightarrow> bool" where
  "hasReadRow s notificationId userId =
     (\<exists>r \<in> set (notificationReads s).
        nr_notificationId r = notificationId \<and> nr_userId r = userId)"

definition unreadCount :: "db \<Rightarrow> ident \<Rightarrow> ident \<Rightarrow> nat" where
  "unreadCount s familyId userId =
     countWhere (\<lambda>n. ntf_familyId n = familyId \<and> \<not> hasReadRow s (ntf_id n) userId)
       (notifications s)"

record notificationQuery =
  nq_type :: "string option"
  nq_read :: "bool option"
  nq_limit :: "int option"

definition validNotificationQuery :: "notificationQuery \<Rightarrow> bool" where
  "validNotificationQuery q =
     (case nq_limit q of None \<Rightarrow> True | Some l \<Rightarrow> 1 \<le> l \<and> l \<le> 100)"

record notificationList =
  nl_notifications :: "Notification list"
  nl_unreadCount :: nat

definition getNotifications :: "db \<Rightarrow> ident \<Rightarrow> notificationQuery \<Rightarrow> error + notificationList" where
  "getNotifications s userId q =
     (if \<not> validNotificationQuery q then Inl ValidationError
      else case resolveMembership s userId of
        None \<Rightarrow> Inl NotPartOfFamily
      | Some familyId \<Rightarrow>
          (let limit = (case nq_limit q of None \<Rightarrow> 20 | Some l \<Rightarrow> l);
               wh = (\<lambda>n. ntf_familyId n = familyId
                          \<and> (case nq_type q of None \<Rightarrow> True
                              | Some t \<Rightarrow> truthy (Some t) \<longrightarrow> ntf_type n = t))
           in Inr \<lparr>nl_notifications =
                      take (nat limit)
                        (sortRowsBy (\<lambda>a b. ntf_sentAt b \<le> ntf_sentAt a)
                           (filter wh (notifications s))),
                    nl_unreadCount = unreadCount s familyId userId\<rparr>))"

text \<open>
  Modelled from the spec: the Prisma schema, which declares the default of \<open>readAt\<close>, is
  missing from the sources. A created read row carries the time of the call (``with
  \<open>readAt = now\<close>'').

  \<open>upsert\<close> on the compound key (notificationId, userId): the rows under the key get the
  new \<open>readAt\<close>; when there is none, one row is created.
\<close>

definition upsertRead :: "ident \<Rightarrow> ident \<Rightarrow> instant \<Rightarrow> NotificationRead list \<Rightarrow> NotificationRead list" where
  "upsertRead notificationId userId now rows =
     (if \<exists>r \<in> set rows. nr_notificationId r = notificationId \<and> nr_userId r = userId
      then updateWhere (\<lambda>r. nr_notificationId r = notificationId \<and> nr_userId r = userId)
             (\<lambda>r. r\<lparr>nr_readAt := now\<rparr>) rows
      else rows @ [\<lparr>nr_id = freshId (map nr_id rows), nr_notificationId = notificationId,
                    nr_userId = userId, nr_readAt = now\<rparr>])"

definition markRead :: "db \<Rightarrow> ident \<Rightarrow> ident \<Rightarrow> instant \<Rightarrow> (error + unit) \<times> db" where
  "markRead s userId notificationId now =
     (case resolveMembership s userId of
        None \<Rightarrow> (Inl NotPartOfFamily, s)
      | Some familyId \<Rightarrow>
          (case find (\<lambda>n. ntf_id n = notificationId \<and> ntf_familyId n = familyId)
                  (notifications s) of
             None \<Rightarrow> (Inl NotificationNotFound, s)
           | Some notification \<Rightarrow>
               (Inr (),
                s\<lparr>notificationReads :=
                    upsertRead notificationId userId now (notificationReads s)\<rparr>)))"

definition createNotification :: "db \<Rightarrow> ident \<Rightarrow> string \<Rightarrow> string \<Rightarrow> string \<Rightarrow> ident list
    \<Rightarrow> string option \<Rightarrow> instant \<Rightarrow> Notification \<times> db" where
  "createNotification s familyId type title message recipients data now =
     (let notification = \<lparr>ntf_id = freshId (map ntf_id (notifications s)),
                           ntf_familyId = familyId, ntf_type = type, ntf_title = title,
                           ntf_message = message, ntf_recipients = recipients,
                           ntf_data = data, ntf_sentAt = now\<rparr>
      in (notification, s\<lparr>notifications := notifications s @ [notification]\<rparr>))"

record sendBody =
  sb_type :: "string option"
  sb_title :: "string option"
  sb_message :: "string option"
  sb_recipients :: "ident list option"
  sb_data :: "string option"

definition validSend :: "sendBody \<Rightarrow> bool" where
  "validSend body =
     (sb_type body \<noteq> None
      \<and> (case sb_title body of None \<Rightarrow> False | Some t \<Rightarrow> lengthBetween 1 200 t)
      \<and> (case sb_message body of None \<Rightarrow> False | Some m \<Rightarrow> 1 \<le> length m))"

definition sendNotification :: "db \<Rightarrow> ident \<Rightarrow> sendBody \<Rightarrow> instant \<Rightarrow> (error + Notification) \<times> db" where
  "sendNotification s userId body now =
     (if \<not> validSend body then (Inl ValidationError, s)
      else case (sb_type body, sb_title body, sb_message body) of
        (Some type, Some title, Some message) \<Rightarrow>
          (case resolveMembership s userId of
             None \<Rightarrow> (Inl NotPartOfFamily, s)
           | Some familyId \<Rightarrow>
               (let notificationRecipients =
                      (case sb_recipients body of
                         None \<Rightarrow>
                           map fm_userId
                             (filter (\<lambda>m. fm_familyId m = familyId \<and> fm_isActive m)
                                (familyMembers s))
                       | Some recipients \<Rightarrow>
                           if length recipients = 0
                           then map fm_userId
                                  (filter (\<lambda>m. fm_familyId m = familyId \<and> fm_isActive m)
                                     (familyMembers s))
                           else recipients);
                    created = createNotification s familyId type title message
                                notificationRecipients (sb_data body) now
                in (Inr (fst created), snd created)))
      | _ \<Rightarrow> (Inl ValidationError, s))"

section \<open>Expiry classification\<close>

datatype expiryStatus = Fresh | Expiring | Expired

definition msPerDay :: int where
  "msPerDay = 1000 * 60 * 60 * 24"

text \<open>
  \<open>Math.ceil((expiryDate.getTime() - today.getTime()) / (1000 * 60 * 60 * 24))\<close>, where
  \<open>today\<close> is the instant of the call.
\<close>

definition daysUntilExpiry :: "instant \<Rightarrow> instant \<Rightarrow> int" where
  "daysUntilExpiry today expiryDate = \<lceil>(of_int (expiryDate - today) :: rat) / of_int msPerDay\<rceil>"

definition getExpiryStatus :: "instant \<Rightarrow> InventoryItem \<Rightarrow> expiryStatus" where
  "getExpiryStatus today item =
     (case item_expiryDate item of
        None \<Rightarrow> Fresh
      | Some expiryDate \<Rightarrow>
          (if daysUntilExpiry today expiryDate < 0 then Expired
           else if daysUntilExpiry today expiryDate \<le> 2 then Expiring
           else Fresh))"

text \<open>
  The classification as the specification words it, with the warning window of the
  family as an argument: no expiry date is fresh, an expiry date before today is
  expired, between 0 and \<open>expiryWarningDays\<close> days until expiry is expiring, anything
  else is fresh.
\<close>

definition classifyExpiry_spec :: "instant \<Rightarrow> int \<Rightarrow> instant option \<Rightarrow> expiryStatus" where
  "classifyExpiry_spec today expiryWarningDays expiry =
     (case expiry of
        None \<Rightarrow> Fresh
      | Some expiryDate \<Rightarrow>
          (if expiryDate < today then Expired
           else if 0 \<le> daysUntilExpiry today expiryDate
                   \<and> daysUntilExpiry today expiryDate \<le> expiryWarningDays then Expiring
           else Fresh))"

section \<open>A sample database\<close>

text \<open>
  Two families. Users 1 and 2 belong to the first, user 3 to the second; user 4 has a
  deactivated membership of the second; user 5 has none. Both families hold an active
  item called milk, in different spelling; the eggs of the first family are soft-deleted.
\<close>

definition sampleItem :: "ident \<Rightarrow> ident \<Rightarrow> string \<Rightarrow> rat \<Rightarrow> instant option \<Rightarrow> bool \<Rightarrow> InventoryItem" where
  "sampleItem i f n q e a =
     \<lparr>item_id = i, item_familyId = f, item_name = n, item_quantity = q,
      item_unit = ''pieces'', item_category = ''dairy'', item_barcode = None,
      item_expiryDate = e, item_imageUrl = None, item_notes = None, item_addedBy = 1,
      item_createdAt = 10, item_updatedAt = 10, item_isActive = a\<rparr>"

definition sampleNotification :: "ident \<Rightarrow> ident \<Rightarrow> ident list \<Rightarrow> instant \<Rightarrow> Notification" where
  "sampleNotification i f rs t =
     \<lparr>ntf_id = i, ntf_familyId = f, ntf_type = ''custom'', ntf_title = ''Note'',
      ntf_message = ''Hello'', ntf_recipients = rs, ntf_data = None, ntf_sentAt = t\<rparr>"

definition sampleDb :: db where
  "sampleDb =
     \<lparr>families =
        [\<lparr>fam_id = 1, fam_name = ''Smith'', fam_inviteCode = ''SMITH1'', fam_ownerId = 1\<rparr>,
         \<lparr>fam_id = 2, fam_name = ''Jones'', fam_inviteCode = ''JONES2'', fam_ownerId = 3\<rparr>],
      familyMembers =
        [\<lparr>fm_id = 1, fm_familyId = 1, fm_userId = 1, fm_role = ''owner'', fm_isActive = True\<rparr>,
         \<lparr>fm_id = 2, fm_familyId = 1, fm_userId = 2, fm_role = ''member'', fm_isActive = True\<rparr>,
         \<lparr>fm_id = 3, fm_familyId = 2, fm_userId = 3, fm_role = ''owner'', fm_isActive = True\<rparr>,
         \<lparr>fm_id = 4, fm_familyId = 2, fm_userId = 4, fm_role = ''member'', fm_isActive = False\<rparr>],
      inventoryItems =
        [sampleItem 1 1 ''Milk'' 2 None True,
         sampleItem 2 1 ''Eggs'' 12 None False,
         sampleItem 3 2 ''milk'' 7 None True],
      merchants = [\<lparr>mer_id = 1, mer_familyId = 1, mer_name = ''Corner shop'', mer_isActive = True\<rparr>],
      orders = [],
      orderItems = [],
      notifications =
        [sampleNotification 1 1 [1] 50,
         sampleNotification 2 1 [1, 2] 60,
         sampleNotification 3 2 [3] 70],
      notificationReads =
        [\<lparr>nr_id = 1, nr_notificationId = 2, nr_userId = 1, nr_readAt = 65\<rparr>]\<rparr>"

definition milkBody :: "string \<Rightarrow> rat \<Rightarrow> addItemBody" where
  "milkBody n q =
     \<lparr>ab_name = Some n, ab_quantity = Some q, ab_unit = None, ab_category = Some ''dairy'',
      ab_barcode = None, ab_expiryDate = None, ab_imageUrl = None, ab_notes = None\<rparr>"

text \<open>
  The fields among quantity, expiryDate, name, category and notes whose stored value
  differs between two versions of a row: the ``fields actually changed'' in the words
  of the specification.
\<close>

definition changedFields_spec :: "InventoryItem \<Rightarrow> InventoryItem \<Rightarrow> string list" where
  "changedFields_spec before after =
     (if item_quantity before \<noteq> item_quantity after then [''quantity''] else [])
     @ (if item_expiryDate before \<noteq> item_expiryDate after then [''expiryDate''] else [])
     @ (if item_name before \<noteq> item_name after then [''name''] else [])
     @ (if item_category before \<noteq> item_category after then [''category''] else [])
     @ (if item_notes before \<noteq> item_notes after then [''notes''] else [])"

definition quantityBody :: "rat \<Rightarrow> updateItemBody" where
  "quantityBody q =
     \<lparr>ub_quantity = Some q, ub_expiryDate = None, ub_name = None, ub_category = None,
      ub_notes = None\<rparr>"


text \<open>
  The precondition of \<open>createFamily\<close> and \<open>joinFamily\<close> in the words of the
  specification: the user already has an active FamilyMember row.
\<close>

definition hasActiveMembership_spec :: "db \<Rightarrow> ident \<Rightarrow> bool" where
  "hasActiveMembership_spec s userId =
     (\<exists>m \<in> set (familyMembers s). fm_userId m = userId \<and> fm_isActive m)"

definition hasMembership :: "db \<Rightarrow> ident \<Rightarrow> bool" where
  "hasMembership s userId = (\<exists>m \<in> set (familyMembers s). fm_userId m = userId)"

text \<open>The state invariant of the order tables: every order has at least one item row.\<close>

definition everyOrderHasItem :: "db \<Rightarrow> bool" where
  "everyOrderHasItem s =
     (\<forall>ord \<in> set (orders s). \<exists>i \<in> set (orderItems s). oi_orderId i = ord_id ord)"

text \<open>
  The states that can arise from one with empty order tables: the order handlers
  \<open>createOrder\<close> and \<open>updateOrderStatus\<close> are the only code that writes the tables
  Order and OrderItem, so every other step leaves both as they are.
\<close>

inductive orderReachable :: "db \<Rightarrow> bool" where
  noOrders: "orders s = [] \<Longrightarrow> orderItems s = [] \<Longrightarrow> orderReachable s"
| afterCreateOrder: "orderReachable s \<Longrightarrow> orderReachable (snd (createOrder s userId body now))"
| afterUpdateOrderStatus:
    "orderReachable s \<Longrightarrow> orderReachable (snd (updateOrderStatus s userId orderId st now))"
| afterOtherStep:
    "orderReachable s \<Longrightarrow> orders s' = orders s \<Longrightarrow> orderItems s' = orderItems s
     \<Longrightarrow> orderReachable s'"

definition orderLine :: "string \<Rightarrow> rat \<Rightarrow> orderItemInput" where
  "orderLine n q =
     \<lparr>oin_inventoryItemId = None, oin_name = Some n, oin_quantity = Some q, oin_unit = None,
      oin_notes = None\<rparr>"

definition orderBody :: "orderItemInput list \<Rightarrow> createOrderBody" where
  "orderBody items = \<lparr>co_merchantId = Some 1, co_items = Some items, co_notes = None\<rparr>"

definition familyBody :: "string \<Rightarrow> createFamilyBody" where
  "familyBody n = \<lparr>cf_name = Some n\<rparr>"

definition inviteBody :: "string \<Rightarrow> joinFamilyBody" where
  "inviteBody c = \<lparr>jf_inviteCode = Some c\<rparr>"

definition allNotifications :: notificationQuery where
  "allNotifications = \<lparr>nq_type = None, nq_read = None, nq_limit = None\<rparr>"

text \<open>
  The same database with the recipient list of every notification replaced: \<open>g\<close> gives
  the new list of each notification.
\<close>

definition readdressRow :: "(Notification \<Rightarrow> ident list) \<Rightarrow> Notification \<Rightarrow> Notification" where
  "readdressRow g n = n\<lparr>ntf_recipients := g n\<rparr>"

definition readdress :: "(Notification \<Rightarrow> ident list) \<Rightarrow> db \<Rightarrow> db" where
  "readdress g s = s\<lparr>notifications := map (readdressRow g) (notifications s)\<rparr>"

definition isReadKey :: "ident \<Rightarrow> ident \<Rightarrow> NotificationRead \<Rightarrow> bool" where
  "isReadKey notificationId userId r =
     (nr_notificationId r = notificationId \<and> nr_userId r = userId)"

section \<open>Auxiliary facts\<close>

lemma le_foldr_max: "x \<in> set ids \<Longrightarrow> x \<le> foldr max ids (0::nat)"
  by (induction ids) auto

lemma freshId_notin: "freshId ids \<notin> set ids"
proof
  assume "freshId ids \<in> set ids"
  then have "freshId ids \<le> foldr max ids 0" by (rule le_foldr_max)
  then show False by (simp add: freshId_def)
qed

lemma updateWhere_key:
  "distinct (map k rows) \<Longrightarrow> e \<in> set rows \<Longrightarrow>
   updateWhere (\<lambda>r. k r = k e) f rows = map (\<lambda>r. if r = e then f e else r) rows"
  unfolding updateWhere_def
  by (rule map_cong) (auto simp: distinct_map dest: inj_onD)

lemma filter_updateWhere_untouched:
  "(\<And>r. r \<in> set rows \<Longrightarrow> P r \<Longrightarrow> \<not> Q r \<and> \<not> Q (f r)) \<Longrightarrow>
   filter Q (updateWhere P f rows) = filter Q rows"
  unfolding updateWhere_def
  by (induction rows) auto

lemma addItem_valid_unfold:
  assumes "validAddItem body" "ab_name body = Some name" "ab_quantity body = Some quantity"
    "ab_category body = Some category" "resolveMembership s userId = Some familyId"
  shows "addItem s userId body now =
    (case find (isDuplicateOf familyId name) (inventoryItems s) of
       Some existingItem \<Rightarrow>
         (Inr \<lparr>ar_item = existingItem\<lparr>item_quantity := item_quantity existingItem + quantity,
                                       item_updatedAt := now\<rparr>,
               ar_isDuplicate = True, ar_previousQuantity = item_quantity existingItem\<rparr>,
          s\<lparr>inventoryItems :=
              updateWhere (\<lambda>r. item_id r = item_id existingItem)
                (\<lambda>r. r\<lparr>item_quantity := item_quantity existingItem + quantity, item_updatedAt := now\<rparr>)
                (inventoryItems s)\<rparr>)
     | None \<Rightarrow>
         (Inr \<lparr>ar_item = newItem (freshId (map item_id (inventoryItems s))) familyId userId name
                            quantity category body now,
               ar_isDuplicate = False, ar_previousQuantity = 0\<rparr>,
          s\<lparr>inventoryItems := inventoryItems s @
              [newItem (freshId (map item_id (inventoryItems s))) familyId userId name
                 quantity category body now]\<rparr>))"
  using assms by (simp add: addItem_def Let_def split: option.splits)

section \<open>Inventory ledger: merge on add\<close>


lemma sample_member1: "resolveMembership sampleDb 1 = Some 1"
  by (simp add: resolveMembership_def findMembership_def sampleDb_def)

lemma sample_item_ids: "distinct (map item_id (inventoryItems sampleDb))"
  by (simp add: sampleDb_def sampleItem_def)




lemma addItem_shape:
  "(addItem s userId body now = (Inl ValidationError, s))
   \<or> (addItem s userId body now = (Inl NotPartOfFamily, s) \<and> resolveMembership s userId = None)
   \<or> (\<exists>familyId name quantity category.
         resolveMembership s userId = Some familyId
         \<and> validAddItem body \<and> ab_name body = Some name \<and> ab_quantity body = Some quantity
         \<and> ab_category body = Some category)"
  by (auto simp: addItem_def split: option.splits)

section \<open>Inventory ledger: tenant isolation of add\<close>

text \<open>
  Claim C2. Whatever the body, an \<open>addItem\<close> call by a user whose membership does not
  resolve to family B leaves the inventory rows of family B exactly as they were, changes
  no other table, and never answers with an item of family B: the duplicate lookup and
  the write are confined to the caller's family.
\<close>

theorem addItem_other_family_untouched:
  assumes ids: "distinct (map item_id (inventoryItems s))"
    and other: "resolveMembership s userId \<noteq> Some familyB"
  shows "filter (\<lambda>i. item_familyId i = familyB) (inventoryItems (snd (addItem s userId body now)))
           = filter (\<lambda>i. item_familyId i = familyB) (inventoryItems s)
         \<and> (snd (addItem s userId body now))\<lparr>inventoryItems := inventoryItems s\<rparr> = s
         \<and> (\<forall>r. fst (addItem s userId body now) = Inr r \<longrightarrow> item_familyId (ar_item r) \<noteq> familyB)"
proof -
  consider (fail) "snd (addItem s userId body now) = s" "\<exists>e. fst (addItem s userId body now) = Inl e"
    | (ok) familyId name quantity category where
        "resolveMembership s userId = Some familyId" "validAddItem body"
        "ab_name body = Some name" "ab_quantity body = Some quantity"
        "ab_category body = Some category"
    using addItem_shape[of s userId body now] by fastforce
  then show ?thesis
  proof cases
    case fail
    then show ?thesis by auto
  next
    case ok
    note run = addItem_valid_unfold[OF ok(2,3,4,5,1), of now]
    from ok(1) other have neq: "familyId \<noteq> familyB" by auto
    show ?thesis
    proof (cases "find (isDuplicateOf familyId name) (inventoryItems s)")
      case None
      then show ?thesis using run neq by (simp add: newItem_def)
    next
      case (Some e)
      then have e: "e \<in> set (inventoryItems s)" "item_familyId e = familyId"
        by (auto simp: find_Some_iff isDuplicateOf_def)
      have same: "\<And>r. r \<in> set (inventoryItems s) \<Longrightarrow> item_id r = item_id e \<Longrightarrow> r = e"
        using ids e(1) by (auto simp: distinct_map dest: inj_onD)
      have "filter (\<lambda>i. item_familyId i = familyB)
              (updateWhere (\<lambda>r. item_id r = item_id e)
                 (\<lambda>r. r\<lparr>item_quantity := item_quantity e + quantity, item_updatedAt := now\<rparr>)
                 (inventoryItems s))
            = filter (\<lambda>i. item_familyId i = familyB) (inventoryItems s)"
        by (rule filter_updateWhere_untouched) (use same e(2) neq in auto)
      then show ?thesis using run Some e(2) neq by simp
    qed
  qed
qed

lemma sample_member3: "resolveMembership sampleDb 3 = Some 2"
  by (simp add: resolveMembership_def findMembership_def sampleDb_def)

lemma sample_add_MILK:
  "fst (addItem sampleDb 1 (milkBody ''MILK'' 3) 100) =
     Inr \<lparr>ar_item = (sampleItem 1 1 ''Milk'' 5 None True)\<lparr>item_updatedAt := 100\<rparr>,
          ar_isDuplicate = True, ar_previousQuantity = 2\<rparr>"
  using sample_member1
  by (simp add: addItem_def validAddItem_def milkBody_def lengthBetween_def sampleDb_def
      sampleItem_def isDuplicateOf_def equalsInsensitive_def toLower_def toLowerChar_def)

theorem addItem_other_family_untouched_witness:
  "distinct (map item_id (inventoryItems sampleDb))
   \<and> resolveMembership sampleDb 1 \<noteq> Some 2
   \<and> sampleItem 3 2 ''milk'' 7 None True \<in> set (inventoryItems sampleDb)
   \<and> filter (\<lambda>i. item_familyId i = 2)
        (inventoryItems (snd (addItem sampleDb 1 (milkBody ''MILK'' 3) 100)))
      = [sampleItem 3 2 ''milk'' 7 None True]
   \<and> fst (addItem sampleDb 1 (milkBody ''MILK'' 3) 100) =
       Inr \<lparr>ar_item = (sampleItem 1 1 ''Milk'' 5 None True)\<lparr>item_updatedAt := 100\<rparr>,
            ar_isDuplicate = True, ar_previousQuantity = 2\<rparr>
   \<and> item_familyId ((sampleItem 1 1 ''Milk'' 5 None True)\<lparr>item_updatedAt := 100\<rparr>) \<noteq> 2"
proof -
  have h: "resolveMembership sampleDb 1 \<noteq> Some 2"
    using sample_member1 by simp
  note t = addItem_other_family_untouched[OF sample_item_ids h, of "milkBody ''MILK'' 3" 100]
  have rows: "filter (\<lambda>i. item_familyId i = 2) (inventoryItems sampleDb)
      = [sampleItem 3 2 ''milk'' 7 None True]"
    by (simp add: sampleDb_def sampleItem_def)
  have c1: "filter (\<lambda>i. item_familyId i = 2)
        (inventoryItems (snd (addItem sampleDb 1 (milkBody ''MILK'' 3) 100)))
      = [sampleItem 3 2 ''milk'' 7 None True]"
    using t[THEN conjunct1] rows by simp
  have c2: "item_familyId ((sampleItem 1 1 ''Milk'' 5 None True)\<lparr>item_updatedAt := 100\<rparr>) \<noteq> 2"
    using t[THEN conjunct2, THEN conjunct2, rule_format, OF sample_add_MILK] by simp
  have c3: "sampleItem 3 2 ''milk'' 7 None True \<in> set (inventoryItems sampleDb)"
    by (simp add: sampleDb_def)
  show ?thesis
    by (intro conjI sample_item_ids h c3 c1 sample_add_MILK c2)
qed






section \<open>Inventory ledger: soft delete\<close>






lemma applyUpdateData_fields:
  "applyUpdateData body e =
     e\<lparr>item_quantity := (case ub_quantity body of None \<Rightarrow> item_quantity e | Some q \<Rightarrow> q),
       item_expiryDate := (case ub_expiryDate body of None \<Rightarrow> item_expiryDate e
                           | Some d \<Rightarrow> toDate (Some d)),
       item_name := (case ub_name body of None \<Rightarrow> item_name e | Some n \<Rightarrow> n),
       item_category := (case ub_category body of None \<Rightarrow> item_category e | Some c \<Rightarrow> c),
       item_notes := (case ub_notes body of None \<Rightarrow> item_notes e | Some n \<Rightarrow> Some n)\<rparr>"
  by (simp add: applyUpdateData_def Let_def split: option.splits)

section \<open>Inventory ledger: partial update\<close>

text \<open>
  Claim C9, as amended. A validated \<open>updateItem\<close> call by a member of a family on the
  identifier of an active item of that family writes exactly the fields present in the
  body among quantity, expiryDate, name, category and notes, stamps \<open>updatedAt\<close>, leaves
  every other field and every other row as it was, and answers with the names of the
  fields present in the body, whether or not their values differ from the stored ones.
  When no active item of the caller's family has the identifier, the answer is
  item-not-found and the state is unchanged.
\<close>

theorem updateItem_writes_provided_fields:
  assumes valid: "validUpdateItem body"
    and member: "resolveMembership s userId = Some familyId"
    and ids: "distinct (map item_id (inventoryItems s))"
  shows "(\<forall>e \<in> set (inventoryItems s).
            item_id e = itemId \<and> item_familyId e = familyId \<and> item_isActive e \<longrightarrow>
            updateItem s userId itemId body now =
              (Inr \<lparr>ur_item =
                      e\<lparr>item_quantity := (case ub_quantity body of None \<Rightarrow> item_quantity e
                                           | Some q \<Rightarrow> q),
                        item_expiryDate := (case ub_expiryDate body of None \<Rightarrow> item_expiryDate e
                                            | Some d \<Rightarrow> toDate (Some d)),
                        item_name := (case ub_name body of None \<Rightarrow> item_name e | Some n \<Rightarrow> n),
                        item_category := (case ub_category body of None \<Rightarrow> item_category e
                                          | Some c \<Rightarrow> c),
                        item_notes := (case ub_notes body of None \<Rightarrow> item_notes e
                                       | Some n \<Rightarrow> Some n),
                        item_updatedAt := now\<rparr>,
                     ur_updated = updateDataKeys body\<rparr>,
               s\<lparr>inventoryItems :=
                   map (\<lambda>r. if r = e then
                      e\<lparr>item_quantity := (case ub_quantity body of None \<Rightarrow> item_quantity e
                                           | Some q \<Rightarrow> q),
                        item_expiryDate := (case ub_expiryDate body of None \<Rightarrow> item_expiryDate e
                                            | Some d \<Rightarrow> toDate (Some d)),
                        item_name := (case ub_name body of None \<Rightarrow> item_name e | Some n \<Rightarrow> n),
                        item_category := (case ub_category body of None \<Rightarrow> item_category e
                                          | Some c \<Rightarrow> c),
                        item_notes := (case ub_notes body of None \<Rightarrow> item_notes e
                                       | Some n \<Rightarrow> Some n),
                        item_updatedAt := now\<rparr> else r) (inventoryItems s)\<rparr>))
         \<and> (\<forall>k. k \<in> set (updateDataKeys body) \<longleftrightarrow>
               (k = ''quantity'' \<and> ub_quantity body \<noteq> None)
               \<or> (k = ''expiryDate'' \<and> ub_expiryDate body \<noteq> None)
               \<or> (k = ''name'' \<and> ub_name body \<noteq> None)
               \<or> (k = ''category'' \<and> ub_category body \<noteq> None)
               \<or> (k = ''notes'' \<and> ub_notes body \<noteq> None))
         \<and> (\<not> (\<exists>e \<in> set (inventoryItems s).
                  item_id e = itemId \<and> item_familyId e = familyId \<and> item_isActive e) \<longrightarrow>
              updateItem s userId itemId body now = (Inl ItemNotFound, s))"
proof -
  have hit: "updateItem s userId itemId body now =
      (Inr \<lparr>ur_item = (applyUpdateData body e)\<lparr>item_updatedAt := now\<rparr>,
            ur_updated = updateDataKeys body\<rparr>,
       s\<lparr>inventoryItems :=
           map (\<lambda>r. if r = e then (applyUpdateData body e)\<lparr>item_updatedAt := now\<rparr> else r)
             (inventoryItems s)\<rparr>)"
    if e: "e \<in> set (inventoryItems s)" "item_id e = itemId" "item_familyId e = familyId"
      "item_isActive e" for e
  proof -
    have uniq: "\<And>r. r \<in> set (inventoryItems s) \<Longrightarrow> item_id r = itemId \<Longrightarrow> r = e"
      using ids e(1,2) by (auto simp: distinct_map dest: inj_onD)
    have "find (isLiveItemOf itemId familyId) (inventoryItems s) = Some e"
    proof (cases "find (isLiveItemOf itemId familyId) (inventoryItems s)")
      case None
      then show ?thesis using e by (auto simp: find_None_iff isLiveItemOf_def)
    next
      case (Some x)
      then have "x \<in> set (inventoryItems s)" "item_id x = itemId"
        by (auto simp: find_Some_iff isLiveItemOf_def)
      then show ?thesis using uniq Some by auto
    qed
    then show ?thesis
      using valid member updateWhere_key[OF ids e(1), of "\<lambda>r. (applyUpdateData body r)\<lparr>item_updatedAt := now\<rparr>"] e(2)
      by (simp add: updateItem_def)
  qed
  have miss: "updateItem s userId itemId body now = (Inl ItemNotFound, s)"
    if "\<not> (\<exists>e \<in> set (inventoryItems s).
                  item_id e = itemId \<and> item_familyId e = familyId \<and> item_isActive e)"
  proof -
    from that have "find (isLiveItemOf itemId familyId) (inventoryItems s) = None"
      by (auto simp: find_None_iff isLiveItemOf_def)
    then show ?thesis using valid member by (simp add: updateItem_def)
  qed
  have keys: "\<forall>k. k \<in> set (updateDataKeys body) \<longleftrightarrow>
               (k = ''quantity'' \<and> ub_quantity body \<noteq> None)
               \<or> (k = ''expiryDate'' \<and> ub_expiryDate body \<noteq> None)
               \<or> (k = ''name'' \<and> ub_name body \<noteq> None)
               \<or> (k = ''category'' \<and> ub_category body \<noteq> None)
               \<or> (k = ''notes'' \<and> ub_notes body \<noteq> None)"
    by (auto simp: updateDataKeys_def)
  show ?thesis
    using hit miss keys unfolding applyUpdateData_fields by blast
qed

lemma sample_milk: "sampleItem 1 1 ''Milk'' 2 None True \<in> set (inventoryItems sampleDb)"
  by (simp add: sampleDb_def)

theorem updateItem_writes_provided_fields_witness:
  "validUpdateItem (quantityBody 5)
   \<and> resolveMembership sampleDb 1 = Some 1
   \<and> distinct (map item_id (inventoryItems sampleDb))
   \<and> sampleItem 1 1 ''Milk'' 2 None True \<in> set (inventoryItems sampleDb)
   \<and> fst (updateItem sampleDb 1 1 (quantityBody 5) 100) =
       Inr \<lparr>ur_item = (sampleItem 1 1 ''Milk'' 5 None True)\<lparr>item_updatedAt := 100\<rparr>,
            ur_updated = [''quantity'']\<rparr>
   \<and> inventoryItems (snd (updateItem sampleDb 1 1 (quantityBody 5) 100)) =
       [(sampleItem 1 1 ''Milk'' 5 None True)\<lparr>item_updatedAt := 100\<rparr>,
        sampleItem 2 1 ''Eggs'' 12 None False,
        sampleItem 3 2 ''milk'' 7 None True]
   \<and> \<not> (\<exists>e \<in> set (inventoryItems sampleDb).
          item_id e = 3 \<and> item_familyId e = 1 \<and> item_isActive e)
   \<and> updateItem sampleDb 1 3 (quantityBody 5) 100 = (Inl ItemNotFound, sampleDb)"
proof -
  have valid: "validUpdateItem (quantityBody 5)"
    by (simp add: validUpdateItem_def quantityBody_def)
  have cond: "item_id (sampleItem 1 1 ''Milk'' 2 None True) = 1
      \<and> item_familyId (sampleItem 1 1 ''Milk'' 2 None True) = 1
      \<and> item_isActive (sampleItem 1 1 ''Milk'' 2 None True)"
    by (simp add: sampleItem_def)
  have other: "\<not> (\<exists>e \<in> set (inventoryItems sampleDb).
          item_id e = 3 \<and> item_familyId e = 1 \<and> item_isActive e)"
    by (simp add: sampleDb_def sampleItem_def)
  note hit = updateItem_writes_provided_fields[OF valid sample_member1 sample_item_ids,
      of 1 100, THEN conjunct1, rule_format, OF sample_milk cond]
  note miss = updateItem_writes_provided_fields[OF valid sample_member1 sample_item_ids,
      of 3 100, THEN conjunct2, THEN conjunct2, rule_format, OF other]
  have c1: "fst (updateItem sampleDb 1 1 (quantityBody 5) 100) =
       Inr \<lparr>ur_item = (sampleItem 1 1 ''Milk'' 5 None True)\<lparr>item_updatedAt := 100\<rparr>,
            ur_updated = [''quantity'']\<rparr>"
    unfolding hit by (simp add: quantityBody_def updateDataKeys_def sampleItem_def)
  have c2: "inventoryItems (snd (updateItem sampleDb 1 1 (quantityBody 5) 100)) =
       [(sampleItem 1 1 ''Milk'' 5 None True)\<lparr>item_updatedAt := 100\<rparr>,
        sampleItem 2 1 ''Eggs'' 12 None False,
        sampleItem 3 2 ''milk'' 7 None True]"
    unfolding hit by (simp add: quantityBody_def sampleDb_def sampleItem_def)
  show ?thesis
    by (intro conjI valid sample_member1 sample_item_ids sample_milk c1 c2 other miss)
qed

theorem updateItem_reports_unchanged_field:
  "sampleItem 1 1 ''Milk'' 2 None True \<in> set (inventoryItems sampleDb)
   \<and> fst (updateItem sampleDb 1 1 (quantityBody 2) 100) =
       Inr \<lparr>ur_item = (sampleItem 1 1 ''Milk'' 2 None True)\<lparr>item_updatedAt := 100\<rparr>,
            ur_updated = [''quantity'']\<rparr>
   \<and> changedFields_spec (sampleItem 1 1 ''Milk'' 2 None True)
        ((sampleItem 1 1 ''Milk'' 2 None True)\<lparr>item_updatedAt := 100\<rparr>) = []"
proof -
  have "fst (updateItem sampleDb 1 1 (quantityBody 2) 100) =
       Inr \<lparr>ur_item = (sampleItem 1 1 ''Milk'' 2 None True)\<lparr>item_updatedAt := 100\<rparr>,
            ur_updated = [''quantity'']\<rparr>"
    using sample_member1
    by (simp add: updateItem_def validUpdateItem_def quantityBody_def sampleDb_def
        sampleItem_def isLiveItemOf_def applyUpdateData_def updateDataKeys_def)
  moreover have "changedFields_spec (sampleItem 1 1 ''Milk'' 2 None True)
        ((sampleItem 1 1 ''Milk'' 2 None True)\<lparr>item_updatedAt := 100\<rparr>) = []"
    by (simp add: changedFields_spec_def sampleItem_def)
  ultimately show ?thesis using sample_milk by blast
qed

lemma findMembership_Some_iff:
  "(\<exists>m. findMembership s userId = Some m) \<longleftrightarrow> hasMembership s userId"
proof (cases "findMembership s userId")
  case None
  then show ?thesis
    by (auto simp: findMembership_def hasMembership_def find_None_iff)
next
  case (Some m)
  then show ?thesis
    by (auto simp: findMembership_def hasMembership_def find_Some_iff)
qed

section \<open>Family directory: one family per user\<close>

text \<open>
  Claim C3, as amended. A validated \<open>createFamily\<close> or \<open>joinFamily\<close> call is turned down
  with the already-member answer (status 400) exactly when the user has a FamilyMember
  row, whether that row is active or not and whatever family is targeted; a call that is
  turned down, for this or any other reason, leaves every table as it was, so it creates
  no Family and no FamilyMember row.
\<close>

theorem already_member_rejected:
  assumes vc: "validCreateFamily cbody" and vj: "validJoinFamily jbody"
  shows "(hasMembership s userId \<longrightarrow>
            createFamily s userId cbody code = (Inl AlreadyMember, s)
            \<and> joinFamily s userId jbody = (Inl AlreadyMember, s))
         \<and> (fst (createFamily s userId cbody code) = Inl AlreadyMember \<longrightarrow> hasMembership s userId)
         \<and> (fst (joinFamily s userId jbody) = Inl AlreadyMember \<longrightarrow> hasMembership s userId)
         \<and> (\<forall>e. fst (createFamily s userId cbody code) = Inl e \<longrightarrow>
               snd (createFamily s userId cbody code) = s)
         \<and> (\<forall>e. fst (joinFamily s userId jbody) = Inl e \<longrightarrow> snd (joinFamily s userId jbody) = s)
         \<and> httpStatus AlreadyMember = 400"
proof (cases "findMembership s userId")
  case None
  then have no: "\<not> hasMembership s userId"
    using findMembership_Some_iff[of s userId] by simp
  have "fst (createFamily s userId cbody code) \<noteq> Inl AlreadyMember"
    using None vc by (auto simp: createFamily_def Let_def split: option.splits)
  moreover have "fst (joinFamily s userId jbody) \<noteq> Inl AlreadyMember"
    using None vj by (auto simp: joinFamily_def split: option.splits)
  moreover have "\<forall>e. fst (createFamily s userId cbody code) = Inl e \<longrightarrow>
               snd (createFamily s userId cbody code) = s"
    by (auto simp: createFamily_def Let_def split: option.splits if_splits)
  moreover have "\<forall>e. fst (joinFamily s userId jbody) = Inl e \<longrightarrow>
               snd (joinFamily s userId jbody) = s"
    by (auto simp: joinFamily_def split: option.splits if_splits)
  ultimately show ?thesis using no by simp
next
  case (Some m)
  then have yes: "hasMembership s userId"
    using findMembership_Some_iff[of s userId] by auto
  have c: "createFamily s userId cbody code = (Inl AlreadyMember, s)"
    using Some vc by (auto simp: createFamily_def validCreateFamily_def split: option.splits)
  have j: "joinFamily s userId jbody = (Inl AlreadyMember, s)"
    using Some vj by (auto simp: joinFamily_def validJoinFamily_def split: option.splits)
  show ?thesis using yes c j by simp
qed

lemma sample_bodies_valid:
  "validCreateFamily (familyBody ''Lee'')" "validJoinFamily (inviteBody ''SMITH1'')"
  by (simp_all add: validCreateFamily_def validJoinFamily_def familyBody_def inviteBody_def
      lengthBetween_def)

theorem already_member_rejected_witness:
  "validCreateFamily (familyBody ''Lee'')
   \<and> validJoinFamily (inviteBody ''SMITH1'')
   \<and> hasMembership sampleDb 3
   \<and> createFamily sampleDb 3 (familyBody ''Lee'') ''LEE123'' = (Inl AlreadyMember, sampleDb)
   \<and> joinFamily sampleDb 3 (inviteBody ''SMITH1'') = (Inl AlreadyMember, sampleDb)
   \<and> snd (createFamily sampleDb 3 (familyBody ''Lee'') ''LEE123'') = sampleDb
   \<and> snd (joinFamily sampleDb 3 (inviteBody ''SMITH1'')) = sampleDb"
proof -
  have m: "hasMembership sampleDb 3"
    by (simp add: hasMembership_def sampleDb_def)
  note t = already_member_rejected[OF sample_bodies_valid, of sampleDb 3 "''LEE123''"]
  from t m have r: "createFamily sampleDb 3 (familyBody ''Lee'') ''LEE123'' = (Inl AlreadyMember, sampleDb)"
    "joinFamily sampleDb 3 (inviteBody ''SMITH1'') = (Inl AlreadyMember, sampleDb)"
    by blast+
  have f: "fst (createFamily sampleDb 3 (familyBody ''Lee'') ''LEE123'') = Inl AlreadyMember"
    "fst (joinFamily sampleDb 3 (inviteBody ''SMITH1'')) = Inl AlreadyMember"
    using r by simp_all
  from t f have u: "snd (createFamily sampleDb 3 (familyBody ''Lee'') ''LEE123'') = sampleDb"
    "snd (joinFamily sampleDb 3 (inviteBody ''SMITH1'')) = sampleDb"
    by blast+
  show ?thesis by (intro conjI sample_bodies_valid m r u)
qed

theorem inactive_membership_blocks_create_and_join:
  "\<not> hasActiveMembership_spec sampleDb 4
   \<and> createFamily sampleDb 4 (familyBody ''Lee'') ''LEE123'' = (Inl AlreadyMember, sampleDb)
   \<and> joinFamily sampleDb 4 (inviteBody ''SMITH1'') = (Inl AlreadyMember, sampleDb)"
  by (simp add: hasActiveMembership_spec_def createFamily_def joinFamily_def
      validCreateFamily_def validJoinFamily_def familyBody_def inviteBody_def lengthBetween_def
      findMembership_def sampleDb_def)

lemma newOrderItems_length: "length (newOrderItems orderId base items) = length items"
  by (induction items arbitrary: base) auto

lemma newOrderItems_orderId:
  "i \<in> set (newOrderItems orderId base items) \<Longrightarrow> oi_orderId i = orderId"
  by (induction items arbitrary: base) auto

lemma newOrderItems_names:
  "list_all validOrderItem items \<Longrightarrow>
   map (\<lambda>i. Some (oi_name i)) (newOrderItems orderId base items) = map oin_name items"
  by (induction items arbitrary: base) (auto simp: validOrderItem_def split: option.splits)

lemma createOrder_fail_unchanged:
  "fst (createOrder s userId body now) = Inl e \<Longrightarrow> snd (createOrder s userId body now) = s"
  by (auto simp: createOrder_def Let_def split: option.splits if_splits)

lemma createOrder_success:
  assumes "fst (createOrder s userId body now) = Inr r"
  shows "\<exists>items familyId. co_items body = Some items \<and> items \<noteq> [] \<and> list_all validOrderItem items
           \<and> resolveMembership s userId = Some familyId
           \<and> ord_familyId (or_order r) = familyId
           \<and> ord_createdBy (or_order r) = userId
           \<and> ord_id (or_order r) = freshId (map ord_id (orders s))
           \<and> or_items r = newOrderItems (ord_id (or_order r)) (freshId (map oi_id (orderItems s))) items
           \<and> snd (createOrder s userId body now) =
               s\<lparr>orders := orders s @ [or_order r], orderItems := orderItems s @ or_items r\<rparr>"
  using assms
  by (auto simp: createOrder_def validCreateOrder_def Let_def split: option.splits if_splits)

lemma everyOrderHasItem_createOrder:
  assumes inv: "everyOrderHasItem s"
  shows "everyOrderHasItem (snd (createOrder s userId body now))"
proof (cases "fst (createOrder s userId body now)")
  case (Inl e)
  then show ?thesis using inv by (simp add: createOrder_fail_unchanged)
next
  case (Inr r)
  from createOrder_success[OF Inr] obtain items where
    items: "items \<noteq> []"
    and rows: "or_items r = newOrderItems (ord_id (or_order r)) (freshId (map oi_id (orderItems s))) items"
    and st: "snd (createOrder s userId body now) =
               s\<lparr>orders := orders s @ [or_order r], orderItems := orderItems s @ or_items r\<rparr>"
    by blast
  have "length (or_items r) = length items" by (simp add: rows newOrderItems_length)
  with items obtain x where x: "x \<in> set (or_items r)"
    by (cases "or_items r") auto
  then have "oi_orderId x = ord_id (or_order r)"
    using rows newOrderItems_orderId by metis
  with x inv show ?thesis
    unfolding st everyOrderHasItem_def by auto
qed

lemma everyOrderHasItem_updateOrderStatus:
  assumes inv: "everyOrderHasItem s"
  shows "everyOrderHasItem (snd (updateOrderStatus s userId orderId st now))"
  using inv
  by (auto simp: updateOrderStatus_def everyOrderHasItem_def updateWhere_def Let_def
      split: option.splits if_splits)

lemma everyOrderHasItem_orderReachable: "orderReachable s \<Longrightarrow> everyOrderHasItem s"
proof (induction rule: orderReachable.induct)
  case (noOrders s)
  then show ?case by (simp add: everyOrderHasItem_def)
next
  case (afterCreateOrder s userId body now)
  then show ?case by (simp add: everyOrderHasItem_createOrder)
next
  case (afterUpdateOrderStatus s userId orderId st now)
  then show ?case by (simp add: everyOrderHasItem_updateOrderStatus)
next
  case (afterOtherStep s s')
  then show ?case by (simp add: everyOrderHasItem_def)
qed

lemma other_handlers_keep_order_tables:
  "orders (snd (addItem s u ab now)) = orders s
   \<and> orderItems (snd (addItem s u ab now)) = orderItems s"
  "orders (snd (updateItem s u i ub now)) = orders s
   \<and> orderItems (snd (updateItem s u i ub now)) = orderItems s"
  "orders (snd (deleteItem s u i now)) = orders s
   \<and> orderItems (snd (deleteItem s u i now)) = orderItems s"
  "orders (snd (createFamily s u cb code)) = orders s
   \<and> orderItems (snd (createFamily s u cb code)) = orderItems s"
  "orders (snd (joinFamily s u jb)) = orders s
   \<and> orderItems (snd (joinFamily s u jb)) = orderItems s"
  "orders (snd (markRead s u i now)) = orders s
   \<and> orderItems (snd (markRead s u i now)) = orderItems s"
  "orders (snd (sendNotification s u sb now)) = orders s
   \<and> orderItems (snd (sendNotification s u sb now)) = orderItems s"
  by (auto simp: addItem_def updateItem_def deleteItem_def createFamily_def joinFamily_def
      markRead_def sendNotification_def createNotification_def Let_def
      split: option.splits if_splits)

section \<open>Order aggregator: no order without items\<close>

text \<open>
  Claim C4. A \<open>createOrder\<close> call whose items array is empty is turned down by validation
  and writes nothing; so is every call that fails for another reason. A call that
  succeeds appends the order together with one OrderItem row per element of the items
  array, each pointing to the new order and carrying the name given in the call. Hence
  the invariant that every stored order has at least one OrderItem row holds in the empty
  database, is kept by \<open>createOrder\<close> and by \<open>updateOrderStatus\<close>, the two handlers that
  write the order tables, and holds in every state that arises from one without orders.
\<close>

theorem createOrder_never_without_items:
  "(co_items body = Some [] \<longrightarrow> createOrder s userId body now = (Inl ValidationError, s))
   \<and> (\<forall>e. fst (createOrder s userId body now) = Inl e \<longrightarrow>
         snd (createOrder s userId body now) = s)
   \<and> (\<forall>r. fst (createOrder s userId body now) = Inr r \<longrightarrow>
         (\<exists>items. co_items body = Some items \<and> items \<noteq> []
            \<and> length (or_items r) = length items
            \<and> map (\<lambda>i. Some (oi_name i)) (or_items r) = map oin_name items
            \<and> (\<forall>i \<in> set (or_items r). oi_orderId i = ord_id (or_order r))
            \<and> ord_id (or_order r) \<notin> set (map ord_id (orders s))
            \<and> snd (createOrder s userId body now) =
                s\<lparr>orders := orders s @ [or_order r], orderItems := orderItems s @ or_items r\<rparr>))
   \<and> everyOrderHasItem emptyDb
   \<and> (everyOrderHasItem s \<longrightarrow> everyOrderHasItem (snd (createOrder s userId body now)))
   \<and> (everyOrderHasItem s \<longrightarrow>
        everyOrderHasItem (snd (updateOrderStatus s userId orderId st now)))
   \<and> (orderReachable s \<longrightarrow> everyOrderHasItem s)"
proof -
  have empty: "co_items body = Some [] \<longrightarrow> createOrder s userId body now = (Inl ValidationError, s)"
    by (simp add: createOrder_def validCreateOrder_def)
  have ok: "\<forall>r. fst (createOrder s userId body now) = Inr r \<longrightarrow>
         (\<exists>items. co_items body = Some items \<and> items \<noteq> []
            \<and> length (or_items r) = length items
            \<and> map (\<lambda>i. Some (oi_name i)) (or_items r) = map oin_name items
            \<and> (\<forall>i \<in> set (or_items r). oi_orderId i = ord_id (or_order r))
            \<and> ord_id (or_order r) \<notin> set (map ord_id (orders s))
            \<and> snd (createOrder s userId body now) =
                s\<lparr>orders := orders s @ [or_order r], orderItems := orderItems s @ or_items r\<rparr>)"
  proof (intro allI impI)
    fix r assume "fst (createOrder s userId body now) = Inr r"
    from createOrder_success[OF this] obtain items where
      i: "co_items body = Some items" "items \<noteq> []" "list_all validOrderItem items"
      and oid: "ord_id (or_order r) = freshId (map ord_id (orders s))"
      and rows: "or_items r = newOrderItems (ord_id (or_order r)) (freshId (map oi_id (orderItems s))) items"
      and st: "snd (createOrder s userId body now) =
               s\<lparr>orders := orders s @ [or_order r], orderItems := orderItems s @ or_items r\<rparr>"
      by blast
    have "length (or_items r) = length items" by (simp add: rows newOrderItems_length)
    moreover have "map (\<lambda>i. Some (oi_name i)) (or_items r) = map oin_name items"
      unfolding rows by (rule newOrderItems_names[OF i(3)])
    moreover have "\<forall>i \<in> set (or_items r). oi_orderId i = ord_id (or_order r)"
      using rows newOrderItems_orderId by metis
    moreover have "ord_id (or_order r) \<notin> set (map ord_id (orders s))"
      unfolding oid by (rule freshId_notin)
    ultimately show "\<exists>items. co_items body = Some items \<and> items \<noteq> []
            \<and> length (or_items r) = length items
            \<and> map (\<lambda>i. Some (oi_name i)) (or_items r) = map oin_name items
            \<and> (\<forall>i \<in> set (or_items r). oi_orderId i = ord_id (or_order r))
            \<and> ord_id (or_order r) \<notin> set (map ord_id (orders s))
            \<and> snd (createOrder s userId body now) =
                s\<lparr>orders := orders s @ [or_order r], orderItems := orderItems s @ or_items r\<rparr>"
      using i st by blast
  qed
  have e0: "everyOrderHasItem emptyDb"
    by (simp add: everyOrderHasItem_def emptyDb_def)
  show ?thesis
    using empty ok e0 createOrder_fail_unchanged[of s userId body now]
      everyOrderHasItem_createOrder[of s userId body now]
      everyOrderHasItem_updateOrderStatus[of s userId orderId st now]
      everyOrderHasItem_orderReachable[of s]
    by blast
qed

lemma sample_order:
  "fst (createOrder sampleDb 1 (orderBody [orderLine ''Milk'' 2, orderLine ''Eggs'' 12]) 100) =
     Inr \<lparr>or_order = \<lparr>ord_id = 1, ord_familyId = 1, ord_merchantId = Some 1, ord_notes = None,
                       ord_createdBy = 1, ord_status = ''pending'', ord_createdAt = 100,
                       ord_updatedAt = 100, ord_completedAt = None\<rparr>,
          or_items = [\<lparr>oi_id = 1, oi_orderId = 1, oi_name = ''Milk'', oi_quantity = 2,
                       oi_unit = ''pieces'', oi_notes = None, oi_inventoryItemId = None\<rparr>,
                      \<lparr>oi_id = 2, oi_orderId = 1, oi_name = ''Eggs'', oi_quantity = 12,
                       oi_unit = ''pieces'', oi_notes = None, oi_inventoryItemId = None\<rparr>]\<rparr>"
  using sample_member1
  by (simp add: createOrder_def validCreateOrder_def validOrderItem_def orderBody_def
      orderLine_def lengthBetween_def sampleDb_def isLiveMerchantOf_def freshId_def Let_def)

theorem createOrder_never_without_items_witness:
  "co_items (orderBody []) = Some []
   \<and> createOrder sampleDb 1 (orderBody []) 100 = (Inl ValidationError, sampleDb)
   \<and> snd (createOrder sampleDb 1 (orderBody []) 100) = sampleDb
   \<and> everyOrderHasItem sampleDb
   \<and> (\<exists>r. fst (createOrder sampleDb 1 (orderBody [orderLine ''Milk'' 2, orderLine ''Eggs'' 12]) 100)
             = Inr r
          \<and> length (or_items r) = 2
          \<and> map oi_name (or_items r) = [''Milk'', ''Eggs'']
          \<and> map oi_orderId (or_items r) = [ord_id (or_order r), ord_id (or_order r)])
   \<and> everyOrderHasItem
        (snd (createOrder sampleDb 1 (orderBody [orderLine ''Milk'' 2, orderLine ''Eggs'' 12]) 100))
   \<and> everyOrderHasItem
        (snd (updateOrderStatus
               (snd (createOrder sampleDb 1
                      (orderBody [orderLine ''Milk'' 2, orderLine ''Eggs'' 12]) 100))
               1 1 (Some ''completed'') 200))
   \<and> orderReachable
        (snd (createOrder sampleDb 1 (orderBody [orderLine ''Milk'' 2, orderLine ''Eggs'' 12]) 100))"
proof -
  let ?b = "orderBody [orderLine ''Milk'' 2, orderLine ''Eggs'' 12]"
  let ?s1 = "snd (createOrder sampleDb 1 ?b 100)"
  have e: "co_items (orderBody []) = Some []" by (simp add: orderBody_def)
  have inv0: "everyOrderHasItem sampleDb"
    by (simp add: everyOrderHasItem_def sampleDb_def)
  note t0 = createOrder_never_without_items[of "orderBody []" sampleDb 1 100 1 None]
  note t1 = createOrder_never_without_items[of ?b sampleDb 1 100 1 None]
  note t2 = createOrder_never_without_items[of ?b ?s1 1 200 1 "Some ''completed''"]
  from t0 e have c1: "createOrder sampleDb 1 (orderBody []) 100 = (Inl ValidationError, sampleDb)"
    by blast
  then have c2: "snd (createOrder sampleDb 1 (orderBody []) 100) = sampleDb" by simp
  note ok = t1[THEN conjunct2, THEN conjunct2, THEN conjunct1, rule_format, OF sample_order]
  have len: "length (or_items
       \<lparr>or_order = \<lparr>ord_id = 1, ord_familyId = 1, ord_merchantId = Some 1, ord_notes = None,
                       ord_createdBy = 1, ord_status = ''pending'', ord_createdAt = 100,
                       ord_updatedAt = 100, ord_completedAt = None\<rparr>,
          or_items = [\<lparr>oi_id = 1, oi_orderId = 1, oi_name = ''Milk'', oi_quantity = 2,
                       oi_unit = ''pieces'', oi_notes = None, oi_inventoryItemId = None\<rparr>,
                      \<lparr>oi_id = 2, oi_orderId = 1, oi_name = ''Eggs'', oi_quantity = 12,
                       oi_unit = ''pieces'', oi_notes = None, oi_inventoryItemId = None\<rparr>]\<rparr>) = 2"
    using ok by (auto simp: orderBody_def)
  have c3: "\<exists>r. fst (createOrder sampleDb 1 ?b 100) = Inr r
          \<and> length (or_items r) = 2
          \<and> map oi_name (or_items r) = [''Milk'', ''Eggs'']
          \<and> map oi_orderId (or_items r) = [ord_id (or_order r), ord_id (or_order r)]"
    unfolding sample_order using len by simp
  have r0: "orderReachable sampleDb"
    by (rule noOrders) (simp_all add: sampleDb_def)
  then have r1: "orderReachable ?s1" by (rule afterCreateOrder)
  from t2 r1 have c4: "everyOrderHasItem ?s1" by blast
  with t2 have c5: "everyOrderHasItem (snd (updateOrderStatus ?s1 1 1 (Some ''completed'') 200))"
    by blast
  show ?thesis by (intro conjI e c1 c2 inv0 c3 c4 c5 r1)
qed

lemma find_Some_member: "find P xs = Some x \<Longrightarrow> x \<in> set xs \<and> P x"
  by (induction xs) (auto split: if_splits)

lemma hasReadRow_upsert:
  "(\<exists>r \<in> set (upsertRead n u t rows). nr_notificationId r = i \<and> nr_userId r = v)
   \<longleftrightarrow> (\<exists>r \<in> set rows. nr_notificationId r = i \<and> nr_userId r = v) \<or> (i = n \<and> v = u)"
proof (cases "\<exists>r \<in> set rows. nr_notificationId r = n \<and> nr_userId r = u")
  case True
  let ?g = "\<lambda>r. if nr_notificationId r = n \<and> nr_userId r = u then r\<lparr>nr_readAt := t\<rparr> else r"
  have keys: "\<And>r. (nr_notificationId (?g r) = i \<and> nr_userId (?g r) = v)
      = (nr_notificationId r = i \<and> nr_userId r = v)"
    by simp
  have "(\<exists>r \<in> set (map ?g rows). nr_notificationId r = i \<and> nr_userId r = v)
      = (\<exists>r \<in> set rows. nr_notificationId (?g r) = i \<and> nr_userId (?g r) = v)"
    by (simp only: set_map bex_simps)
  also have "\<dots> = (\<exists>r \<in> set rows. nr_notificationId r = i \<and> nr_userId r = v)"
    by (simp only: keys)
  finally show ?thesis using True by (auto simp: upsertRead_def updateWhere_def)
next
  case False
  then show ?thesis by (auto simp: upsertRead_def)
qed

lemma markRead_shape:
  "(\<exists>e. markRead s userId notificationId now = (Inl e, s))
   \<or> (\<exists>familyId n. resolveMembership s userId = Some familyId
         \<and> n \<in> set (notifications s) \<and> ntf_id n = notificationId \<and> ntf_familyId n = familyId
         \<and> markRead s userId notificationId now =
             (Inr (), s\<lparr>notificationReads :=
                          upsertRead notificationId userId now (notificationReads s)\<rparr>))"
  by (auto simp: markRead_def split: option.splits dest: find_Some_member)

lemma markRead_succeeds:
  assumes "resolveMembership s userId = Some familyId"
    and "n \<in> set (notifications s)" and "ntf_familyId n = familyId"
  shows "markRead s userId (ntf_id n) now =
           (Inr (), s\<lparr>notificationReads :=
                        upsertRead (ntf_id n) userId now (notificationReads s)\<rparr>)"
proof -
  have "find (\<lambda>x. ntf_id x = ntf_id n \<and> ntf_familyId x = familyId) (notifications s) \<noteq> None"
    using assms(2,3) by (auto simp: find_None_iff)
  then show ?thesis using assms(1) by (auto simp: markRead_def)
qed

lemma hasReadRow_markRead:
  "hasReadRow (snd (markRead s reader notificationId now)) i v
   \<longleftrightarrow> hasReadRow s i v
       \<or> (i = notificationId \<and> v = reader \<and> fst (markRead s reader notificationId now) = Inr ())"
proof -
  from markRead_shape[of s reader notificationId now] show ?thesis
  proof (elim disjE exE conjE)
    fix e assume "markRead s reader notificationId now = (Inl e, s)"
    then show ?thesis by simp
  next
    fix familyId n
    assume run: "markRead s reader notificationId now =
        (Inr (), s\<lparr>notificationReads :=
                     upsertRead notificationId reader now (notificationReads s)\<rparr>)"
    show ?thesis unfolding run by (simp add: hasReadRow_def hasReadRow_upsert)
  qed
qed

lemma markRead_notifications:
  "notifications (snd (markRead s reader notificationId now)) = notifications s"
  using markRead_shape[of s reader notificationId now] by auto

lemma length_filter_drop_one:
  "distinct (map k xs) \<Longrightarrow> x \<in> set xs \<Longrightarrow> P x \<Longrightarrow>
   length (filter (\<lambda>y. P y \<and> k y \<noteq> k x) xs) + 1 = length (filter P xs)"
proof (induction xs)
  case Nil
  then show ?case by simp
next
  case (Cons a xs)
  show ?case
  proof (cases "a = x")
    case True
    with Cons.prems(1) have "k x \<notin> k ` set xs" by simp
    then have "\<And>y. y \<in> set xs \<Longrightarrow> k y \<noteq> k x" by (metis imageI)
    then have "filter (\<lambda>y. P y \<and> k y \<noteq> k x) xs = filter P xs"
      by (auto intro: filter_cong)
    then show ?thesis using True Cons.prems(3) by simp
  next
    case False
    then have "x \<in> set xs" using Cons.prems(2) by simp
    moreover have "k a \<noteq> k x" using Cons.prems(1) calculation by auto
    ultimately show ?thesis using Cons by auto
  qed
qed

lemma unreadCount_as_card:
  assumes "distinct (map ntf_id (notifications s))"
  shows "unreadCount s familyId userId =
           card {i. \<exists>n \<in> set (notifications s). ntf_id n = i \<and> ntf_familyId n = familyId
                      \<and> \<not> (\<exists>r \<in> set (notificationReads s).
                             nr_notificationId r = i \<and> nr_userId r = userId)}"
proof -
  let ?P = "\<lambda>n. ntf_familyId n = familyId \<and> \<not> hasReadRow s (ntf_id n) userId"
  have d: "distinct (map ntf_id (filter ?P (notifications s)))"
    using assms by (rule distinct_map_filter)
  have "{i. \<exists>n \<in> set (notifications s). ntf_id n = i \<and> ntf_familyId n = familyId
                      \<and> \<not> (\<exists>r \<in> set (notificationReads s).
                             nr_notificationId r = i \<and> nr_userId r = userId)}
        = set (map ntf_id (filter ?P (notifications s)))"
    by (auto simp: hasReadRow_def)
  then show ?thesis
    using distinct_card[OF d] by (simp add: unreadCount_def countWhere_def)
qed

section \<open>Notifications: the unread count\<close>

text \<open>
  Claim C5. With unique notification identifiers, \<open>unreadCount\<close> of a family and a user
  is the number of the family's notifications that have no NotificationRead row of the
  user; the notification listing reports this count, computed from the two tables at
  the time of the call. A successful \<open>markRead\<close> by the user on a notification the user
  has no read row for lowers the count of the user's family by exactly 1; marking a
  notification the user has already read leaves the count as it is; and a \<open>markRead\<close> by
  any other user changes no count of the user.
\<close>

theorem unreadCount_computed_from_reads:
  assumes ids: "distinct (map ntf_id (notifications s))"
  shows "unreadCount s familyId userId =
           card {i. \<exists>n \<in> set (notifications s). ntf_id n = i \<and> ntf_familyId n = familyId
                      \<and> \<not> (\<exists>r \<in> set (notificationReads s).
                             nr_notificationId r = i \<and> nr_userId r = userId)}
         \<and> (\<forall>res. getNotifications s userId q = Inr res \<longrightarrow>
               (\<exists>f. resolveMembership s userId = Some f
                    \<and> nl_unreadCount res = unreadCount s f userId))
         \<and> (resolveMembership s userId = Some familyId
              \<and> fst (markRead s userId notificationId now) = Inr ()
              \<and> \<not> hasReadRow s notificationId userId \<longrightarrow>
              unreadCount (snd (markRead s userId notificationId now)) familyId userId + 1
                = unreadCount s familyId userId)
         \<and> (hasReadRow s notificationId userId \<longrightarrow>
              unreadCount (snd (markRead s userId notificationId now)) familyId userId
                = unreadCount s familyId userId)
         \<and> (other \<noteq> userId \<longrightarrow>
              unreadCount (snd (markRead s other notificationId now)) familyId userId
                = unreadCount s familyId userId)"
proof -
  have listing: "\<forall>res. getNotifications s userId q = Inr res \<longrightarrow>
               (\<exists>f. resolveMembership s userId = Some f
                    \<and> nl_unreadCount res = unreadCount s f userId)"
    by (auto simp: getNotifications_def Let_def split: if_splits option.splits)
  have newly: "unreadCount (snd (markRead s userId notificationId now)) familyId userId + 1
                = unreadCount s familyId userId"
    if m: "resolveMembership s userId = Some familyId"
      and ok: "fst (markRead s userId notificationId now) = Inr ()"
      and unread: "\<not> hasReadRow s notificationId userId"
  proof -
    from markRead_shape[of s userId notificationId now] ok m obtain n where
      n: "n \<in> set (notifications s)" "ntf_id n = notificationId" "ntf_familyId n = familyId"
      by auto
    let ?P = "\<lambda>x. ntf_familyId x = familyId \<and> \<not> hasReadRow s (ntf_id x) userId"
    have "filter (\<lambda>x. ntf_familyId x = familyId
              \<and> \<not> hasReadRow (snd (markRead s userId notificationId now)) (ntf_id x) userId)
            (notifications s)
          = filter (\<lambda>x. ?P x \<and> ntf_id x \<noteq> ntf_id n) (notifications s)"
      using ok n(2) by (auto simp: hasReadRow_markRead intro: filter_cong)
    moreover have "length (filter (\<lambda>x. ?P x \<and> ntf_id x \<noteq> ntf_id n) (notifications s)) + 1
          = length (filter ?P (notifications s))"
      by (rule length_filter_drop_one[OF ids n(1)]) (use n unread in simp)
    ultimately show ?thesis
      by (simp add: unreadCount_def countWhere_def markRead_notifications)
  qed
  have again: "unreadCount (snd (markRead s userId notificationId now)) familyId userId
                = unreadCount s familyId userId"
    if "hasReadRow s notificationId userId"
    using that
    by (auto simp: unreadCount_def countWhere_def markRead_notifications hasReadRow_markRead
        intro!: arg_cong[where f = length] filter_cong)
  have others: "unreadCount (snd (markRead s other notificationId now)) familyId userId
                = unreadCount s familyId userId"
    if "other \<noteq> userId"
    using that
    by (auto simp: unreadCount_def countWhere_def markRead_notifications hasReadRow_markRead
        intro!: arg_cong[where f = length] filter_cong)
  show ?thesis
    using unreadCount_as_card[OF ids, of familyId userId] listing newly again others
    by blast
qed

lemma sample_notification_ids: "distinct (map ntf_id (notifications sampleDb))"
  by (simp add: sampleDb_def sampleNotification_def)

lemma sample_unread_1: "unreadCount sampleDb 1 1 = 1"
  by (simp add: unreadCount_def countWhere_def hasReadRow_def sampleDb_def sampleNotification_def)

lemma sample_mark_1: "fst (markRead sampleDb 1 1 100) = Inr ()"
  using sample_member1
  by (simp add: markRead_def sampleDb_def sampleNotification_def)

lemma sample_listing:
  "getNotifications sampleDb 1 allNotifications =
     Inr \<lparr>nl_notifications = [sampleNotification 2 1 [1, 2] 60, sampleNotification 1 1 [1] 50],
          nl_unreadCount = 1\<rparr>"
  using sample_member1 sample_unread_1
  by (simp add: getNotifications_def validNotificationQuery_def allNotifications_def
      sampleDb_def sampleNotification_def sortRowsBy_def)

theorem unreadCount_computed_from_reads_witness:
  "distinct (map ntf_id (notifications sampleDb))
   \<and> unreadCount sampleDb 1 1 = 1
   \<and> getNotifications sampleDb 1 allNotifications =
       Inr \<lparr>nl_notifications = [sampleNotification 2 1 [1, 2] 60, sampleNotification 1 1 [1] 50],
            nl_unreadCount = 1\<rparr>
   \<and> resolveMembership sampleDb 1 = Some 1
   \<and> fst (markRead sampleDb 1 1 100) = Inr ()
   \<and> \<not> hasReadRow sampleDb 1 1
   \<and> unreadCount (snd (markRead sampleDb 1 1 100)) 1 1 = 0
   \<and> hasReadRow sampleDb 2 1
   \<and> unreadCount (snd (markRead sampleDb 1 2 100)) 1 1 = 1
   \<and> (2::nat) \<noteq> 1
   \<and> unreadCount (snd (markRead sampleDb 2 1 100)) 1 1 = 1"
proof -
  have unread: "\<not> hasReadRow sampleDb 1 1"
    by (simp add: hasReadRow_def sampleDb_def)
  have read: "hasReadRow sampleDb 2 1"
    by (simp add: hasReadRow_def sampleDb_def)
  have ne: "(2::nat) \<noteq> 1" by simp
  note t1 = unreadCount_computed_from_reads[OF sample_notification_ids,
      of 1 1 allNotifications 1 100 2]
  note t2 = unreadCount_computed_from_reads[OF sample_notification_ids,
      of 1 1 allNotifications 2 100 2]
  note newly = t1[THEN conjunct2, THEN conjunct2, THEN conjunct1, rule_format]
  note again = t2[THEN conjunct2, THEN conjunct2, THEN conjunct2, THEN conjunct1, rule_format]
  note others = t1[THEN conjunct2, THEN conjunct2, THEN conjunct2, THEN conjunct2, rule_format]
  have "unreadCount (snd (markRead sampleDb 1 1 100)) 1 1 + 1 = unreadCount sampleDb 1 1"
    by (rule newly) (intro conjI sample_member1 sample_mark_1 unread)
  then have c1: "unreadCount (snd (markRead sampleDb 1 1 100)) 1 1 = 0"
    using sample_unread_1 by simp
  have "unreadCount (snd (markRead sampleDb 1 2 100)) 1 1 = unreadCount sampleDb 1 1"
    by (rule again) (rule read)
  then have c2: "unreadCount (snd (markRead sampleDb 1 2 100)) 1 1 = 1"
    using sample_unread_1 by simp
  have "unreadCount (snd (markRead sampleDb 2 1 100)) 1 1 = unreadCount sampleDb 1 1"
    by (rule others) (rule ne)
  then have c3: "unreadCount (snd (markRead sampleDb 2 1 100)) 1 1 = 1"
    using sample_unread_1 by simp
  show ?thesis
    by (intro conjI sample_notification_ids sample_unread_1 sample_listing sample_member1
        sample_mark_1 unread c1 read c2 ne c3)
qed

lemma upsertRead_new:
  "\<not> (\<exists>r \<in> set rows. nr_notificationId r = n \<and> nr_userId r = u) \<Longrightarrow>
   upsertRead n u t rows =
     rows @ [\<lparr>nr_id = freshId (map nr_id rows), nr_notificationId = n, nr_userId = u,
              nr_readAt = t\<rparr>]"
  unfolding upsertRead_def by (rule if_not_P)

lemma upsertRead_old:
  "\<exists>r \<in> set rows. nr_notificationId r = n \<and> nr_userId r = u \<Longrightarrow>
   upsertRead n u t rows =
     updateWhere (\<lambda>r. nr_notificationId r = n \<and> nr_userId r = u)
       (\<lambda>r. r\<lparr>nr_readAt := t\<rparr>) rows"
  unfolding upsertRead_def by (rule if_P)

lemma countWhere_updateWhere_keys:
  "(\<And>r. P (f r) = P r) \<Longrightarrow> countWhere P (updateWhere Q f rows) = countWhere P rows"
  by (induction rows) (auto simp: countWhere_def updateWhere_def)

lemma countWhere_pos_iff: "0 < countWhere P rows \<longleftrightarrow> (\<exists>r \<in> set rows. P r)"
  by (auto simp: countWhere_def filter_empty_conv)

lemma upsertRead_count:
  assumes "countWhere (isReadKey n u) rows \<le> 1"
  shows "countWhere (isReadKey n u) (upsertRead n u t rows) = 1"
proof (cases "\<exists>r \<in> set rows. nr_notificationId r = n \<and> nr_userId r = u")
  case True
  then have "0 < countWhere (isReadKey n u) rows"
    by (auto simp: countWhere_pos_iff isReadKey_def)
  with assms have one: "countWhere (isReadKey n u) rows = 1" by simp
  have "countWhere (isReadKey n u)
          (updateWhere (\<lambda>r. nr_notificationId r = n \<and> nr_userId r = u)
             (\<lambda>r. r\<lparr>nr_readAt := t\<rparr>) rows) = countWhere (isReadKey n u) rows"
    by (rule countWhere_updateWhere_keys) (simp add: isReadKey_def)
  then show ?thesis unfolding upsertRead_old[OF True, of t] using one by simp
next
  case False
  then have none: "filter (isReadKey n u) rows = []"
    by (auto simp: filter_empty_conv isReadKey_def)
  show ?thesis unfolding upsertRead_new[OF False, of t] using none
    by (simp add: countWhere_def isReadKey_def)
qed

lemma upsertRead_readAt:
  assumes r: "r \<in> set (upsertRead n u t rows)" and k: "isReadKey n u r"
  shows "nr_readAt r = t"
proof (cases "\<exists>x \<in> set rows. nr_notificationId x = n \<and> nr_userId x = u")
  case True
  let ?g = "\<lambda>x. if nr_notificationId x = n \<and> nr_userId x = u then x\<lparr>nr_readAt := t\<rparr> else x"
  have "upsertRead n u t rows = map ?g rows"
    unfolding upsertRead_old[OF True, of t] updateWhere_def by (rule refl)
  with r have "r \<in> set (map ?g rows)" by (simp only:)
  then have "r \<in> ?g ` set rows" by (simp only: set_map)
  then obtain x where x: "r = ?g x" by (rule imageE)
  show ?thesis
  proof (cases "nr_notificationId x = n \<and> nr_userId x = u")
    case True
    with x show ?thesis by simp
  next
    case False
    with x k show ?thesis by (simp add: isReadKey_def)
  qed
next
  case False
  let ?new = "\<lparr>nr_id = freshId (map nr_id rows), nr_notificationId = n, nr_userId = u,
               nr_readAt = t\<rparr>"
  from r have "r \<in> set rows \<or> r = ?new"
    unfolding upsertRead_new[OF False, of t] by (simp, blast)
  then show ?thesis
  proof
    assume "r \<in> set rows"
    with k False show ?thesis by (auto simp: isReadKey_def)
  next
    assume "r = ?new"
    then have "nr_readAt r = nr_readAt ?new" by (rule arg_cong)
    then show ?thesis by simp
  qed
qed

lemma upsertRead_again:
  assumes "\<exists>r \<in> set rows. isReadKey n u r"
  shows "map (\<lambda>r. (nr_id r, nr_notificationId r, nr_userId r)) (upsertRead n u t rows)
           = map (\<lambda>r. (nr_id r, nr_notificationId r, nr_userId r)) rows"
  using assms by (auto simp: upsertRead_def updateWhere_def isReadKey_def)

lemma upsertRead_first:
  assumes "countWhere (isReadKey n u) rows = 0"
  shows "upsertRead n u t rows =
           rows @ [\<lparr>nr_id = freshId (map nr_id rows), nr_notificationId = n, nr_userId = u,
                    nr_readAt = t\<rparr>]"
proof -
  from assms have "\<not> (\<exists>r \<in> set rows. isReadKey n u r)"
    using countWhere_pos_iff[of "isReadKey n u" rows] by simp
  then show ?thesis by (auto simp: upsertRead_def isReadKey_def)
qed

section \<open>Notifications: marking read is idempotent\<close>

text \<open>
  Claim C6. Let the user be a member of the family of a notification, and let the
  NotificationRead table hold at most one row for the pair (the compound key is unique).
  Then \<open>markRead\<close> succeeds, and succeeds again when repeated; after the first call and
  after the second there is exactly one row for the pair; the row carries the time of the
  latest call as \<open>readAt\<close>; the second call adds no row and changes no identifier or key
  of a row; and when there was no row for the pair before, the first call appends exactly
  one.
\<close>

theorem markRead_idempotent:
  assumes member: "resolveMembership s userId = Some familyId"
    and row: "n \<in> set (notifications s)"
    and fam: "ntf_familyId n = familyId"
    and unique: "countWhere (isReadKey (ntf_id n) userId) (notificationReads s) \<le> 1"
  shows "\<exists>s1 s2.
           markRead s userId (ntf_id n) t1 = (Inr (), s1)
           \<and> markRead s1 userId (ntf_id n) t2 = (Inr (), s2)
           \<and> countWhere (isReadKey (ntf_id n) userId) (notificationReads s1) = 1
           \<and> countWhere (isReadKey (ntf_id n) userId) (notificationReads s2) = 1
           \<and> (\<forall>r \<in> set (notificationReads s1). isReadKey (ntf_id n) userId r \<longrightarrow> nr_readAt r = t1)
           \<and> (\<forall>r \<in> set (notificationReads s2). isReadKey (ntf_id n) userId r \<longrightarrow> nr_readAt r = t2)
           \<and> length (notificationReads s2) = length (notificationReads s1)
           \<and> map (\<lambda>r. (nr_id r, nr_notificationId r, nr_userId r)) (notificationReads s2)
               = map (\<lambda>r. (nr_id r, nr_notificationId r, nr_userId r)) (notificationReads s1)
           \<and> (countWhere (isReadKey (ntf_id n) userId) (notificationReads s) = 0 \<longrightarrow>
                length (notificationReads s1) = length (notificationReads s) + 1
                \<and> take (length (notificationReads s)) (notificationReads s1) = notificationReads s)"
proof -
  let ?k = "isReadKey (ntf_id n) userId"
  let ?r1 = "upsertRead (ntf_id n) userId t1 (notificationReads s)"
  let ?s1 = "s\<lparr>notificationReads := ?r1\<rparr>"
  let ?r2 = "upsertRead (ntf_id n) userId t2 ?r1"
  let ?s2 = "?s1\<lparr>notificationReads := ?r2\<rparr>"
  have run1: "markRead s userId (ntf_id n) t1 = (Inr (), ?s1)"
    by (rule markRead_succeeds[OF member row fam])
  have member1: "resolveMembership ?s1 userId = Some familyId"
    using member by (simp add: resolveMembership_def findMembership_def)
  have row1: "n \<in> set (notifications ?s1)" using row by simp
  have run2: "markRead ?s1 userId (ntf_id n) t2 = (Inr (), ?s2)"
    using markRead_succeeds[OF member1 row1 fam, of t2] by simp
  have c1: "countWhere ?k ?r1 = 1" by (rule upsertRead_count[OF unique])
  have c2: "countWhere ?k ?r2 = 1" by (rule upsertRead_count) (simp add: c1)
  from c1 have ex1: "\<exists>r \<in> set ?r1. ?k r"
    using countWhere_pos_iff[of ?k ?r1] by simp
  have keys: "map (\<lambda>r. (nr_id r, nr_notificationId r, nr_userId r)) ?r2
               = map (\<lambda>r. (nr_id r, nr_notificationId r, nr_userId r)) ?r1"
    by (rule upsertRead_again[OF ex1])
  then have len: "length ?r2 = length ?r1" by (rule map_eq_imp_length_eq)
  have first: "countWhere ?k (notificationReads s) = 0 \<longrightarrow>
                length ?r1 = length (notificationReads s) + 1
                \<and> take (length (notificationReads s)) ?r1 = notificationReads s"
  proof
    assume z: "countWhere ?k (notificationReads s) = 0"
    show "length ?r1 = length (notificationReads s) + 1
                \<and> take (length (notificationReads s)) ?r1 = notificationReads s"
      unfolding upsertRead_first[OF z] by simp
  qed
  have at1: "\<forall>r \<in> set ?r1. ?k r \<longrightarrow> nr_readAt r = t1"
    by (intro ballI impI, erule (1) upsertRead_readAt)
  have at2: "\<forall>r \<in> set ?r2. ?k r \<longrightarrow> nr_readAt r = t2"
    by (intro ballI impI, erule (1) upsertRead_readAt)
  show ?thesis
  proof (intro exI conjI)
    show "markRead s userId (ntf_id n) t1 = (Inr (), ?s1)" by (rule run1)
    show "markRead ?s1 userId (ntf_id n) t2 = (Inr (), ?s2)" by (rule run2)
    show "countWhere ?k (notificationReads ?s1) = 1" using c1 by simp
    show "countWhere ?k (notificationReads ?s2) = 1" using c2 by simp
    show "\<forall>r \<in> set (notificationReads ?s1). ?k r \<longrightarrow> nr_readAt r = t1" using at1 by simp
    show "\<forall>r \<in> set (notificationReads ?s2). ?k r \<longrightarrow> nr_readAt r = t2" using at2 by simp
    show "length (notificationReads ?s2) = length (notificationReads ?s1)" using len by simp
    show "map (\<lambda>r. (nr_id r, nr_notificationId r, nr_userId r)) (notificationReads ?s2)
               = map (\<lambda>r. (nr_id r, nr_notificationId r, nr_userId r)) (notificationReads ?s1)"
      using keys by simp
    show "countWhere ?k (notificationReads s) = 0 \<longrightarrow>
                length (notificationReads ?s1) = length (notificationReads s) + 1
                \<and> take (length (notificationReads s)) (notificationReads ?s1) = notificationReads s"
      using first by simp
  qed
qed

lemma two_runs:
  "\<exists>s1 s2. f = (a, s1) \<and> g s1 = (b, s2) \<and> P s1 s2 \<Longrightarrow>
   fst f = a \<and> fst (g (snd f)) = b \<and> P (snd f) (snd (g (snd f)))"
  by auto

lemma sample_member2: "resolveMembership sampleDb 2 = Some 1"
  by (simp add: resolveMembership_def findMembership_def sampleDb_def)

lemma sample_notification1:
  "sampleNotification 1 1 [1] 50 \<in> set (notifications sampleDb)"
  "ntf_id (sampleNotification 1 1 [1] 50) = 1"
  "ntf_familyId (sampleNotification 1 1 [1] 50) = 1"
  "ntf_recipients (sampleNotification 1 1 [1] 50) = [1]"
  by (simp_all add: sampleDb_def sampleNotification_def)

theorem markRead_idempotent_witness:
  "resolveMembership sampleDb 2 = Some 1
   \<and> sampleNotification 1 1 [1] 50 \<in> set (notifications sampleDb)
   \<and> ntf_familyId (sampleNotification 1 1 [1] 50) = 1
   \<and> countWhere (isReadKey 1 2) (notificationReads sampleDb) = 0
   \<and> fst (markRead sampleDb 2 1 100) = Inr ()
   \<and> fst (markRead (snd (markRead sampleDb 2 1 100)) 2 1 200) = Inr ()
   \<and> countWhere (isReadKey 1 2) (notificationReads (snd (markRead sampleDb 2 1 100))) = 1
   \<and> countWhere (isReadKey 1 2)
        (notificationReads (snd (markRead (snd (markRead sampleDb 2 1 100)) 2 1 200))) = 1
   \<and> length (notificationReads (snd (markRead sampleDb 2 1 100))) = 2
   \<and> length (notificationReads (snd (markRead (snd (markRead sampleDb 2 1 100)) 2 1 200))) = 2"
proof -
  have zero: "countWhere (isReadKey 1 2) (notificationReads sampleDb) = 0"
    by (simp add: countWhere_def isReadKey_def sampleDb_def)
  have unique: "countWhere (isReadKey (ntf_id (sampleNotification 1 1 [1] 50)) 2)
      (notificationReads sampleDb) \<le> 1"
    unfolding sample_notification1(2) zero by simp
  have len0: "length (notificationReads sampleDb) = 1"
    by (simp add: sampleDb_def)
  note t = markRead_idempotent[OF sample_member2 sample_notification1(1,3) unique, of 100 200,
      unfolded sample_notification1(2)]
  note all = two_runs[OF t]
  note f1 = all[THEN conjunct1]
  note f2 = all[THEN conjunct2, THEN conjunct1]
  note c1 = all[THEN conjunct2, THEN conjunct2, THEN conjunct1]
  note c2 = all[THEN conjunct2, THEN conjunct2, THEN conjunct2, THEN conjunct1]
  note len = all[THEN conjunct2, THEN conjunct2, THEN conjunct2, THEN conjunct2, THEN conjunct2,
      THEN conjunct2, THEN conjunct1]
  note first = all[THEN conjunct2, THEN conjunct2, THEN conjunct2, THEN conjunct2, THEN conjunct2,
      THEN conjunct2, THEN conjunct2, THEN conjunct2, rule_format, OF zero]
  have l1: "length (notificationReads (snd (markRead sampleDb 2 1 100))) = 2"
    using first len0 by simp
  have l2: "length (notificationReads (snd (markRead (snd (markRead sampleDb 2 1 100)) 2 1 200))) = 2"
    using len l1 by simp
  show ?thesis
    by (intro conjI sample_member2 sample_notification1(1,3) zero f1 f2 c1 c2 l1 l2)
qed

lemma insertBy_map:
  "(\<And>a b. le (h a) (h b) = le a b) \<Longrightarrow>
   insertBy le (h x) (map h rows) = map h (insertBy le x rows)"
  by (induction rows) simp_all

lemma sortRowsBy_map:
  assumes "\<And>a b. le (h a) (h b) = le a b"
  shows "sortRowsBy le (map h rows) = map h (sortRowsBy le rows)"
proof (induction rows)
  case Nil
  show ?case by (simp add: sortRowsBy_def)
next
  case (Cons x rows)
  have "sortRowsBy le (map h (x # rows)) = insertBy le (h x) (sortRowsBy le (map h rows))"
    by (simp add: sortRowsBy_def)
  also have "\<dots> = insertBy le (h x) (map h (sortRowsBy le rows))"
    by (simp only: Cons.IH)
  also have "\<dots> = map h (insertBy le x (sortRowsBy le rows))"
    by (rule insertBy_map) (rule assms)
  finally show ?case by (simp add: sortRowsBy_def)
qed

lemma find_mapped: "find P (map h rows) = map_option h (find (P \<circ> h) rows)"
  by (induction rows) simp_all

lemma countWhere_remove1:
  "n \<in> set rows \<Longrightarrow> P n \<Longrightarrow> countWhere P rows = Suc (countWhere P (remove1 n rows))"
  by (induction rows) (auto simp: countWhere_def)

lemma readdressRow_fields:
  "ntf_id (readdressRow g n) = ntf_id n"
  "ntf_familyId (readdressRow g n) = ntf_familyId n"
  "ntf_type (readdressRow g n) = ntf_type n"
  "ntf_sentAt (readdressRow g n) = ntf_sentAt n"
  by (simp_all add: readdressRow_def)

lemma readdress_tables:
  "resolveMembership (readdress g s) u = resolveMembership s u"
  "hasReadRow (readdress g s) i u = hasReadRow s i u"
  "notificationReads (readdress g s) = notificationReads s"
  "notifications (readdress g s) = map (readdressRow g) (notifications s)"
  by (simp_all add: readdress_def resolveMembership_def findMembership_def hasReadRow_def)

lemma unreadCount_readdress: "unreadCount (readdress g s) f u = unreadCount s f u"
  by (simp add: unreadCount_def countWhere_def readdress_tables filter_map o_def
      readdressRow_fields)

lemma markRead_readdress:
  "markRead (readdress g s) u i now
     = (fst (markRead s u i now), readdress g (snd (markRead s u i now)))"
proof -
  have "find (\<lambda>n. ntf_id n = i \<and> ntf_familyId n = f) (map (readdressRow g) (notifications s))
      = map_option (readdressRow g) (find (\<lambda>n. ntf_id n = i \<and> ntf_familyId n = f) (notifications s))"
    for f
    by (simp add: find_mapped o_def readdressRow_fields)
  then show ?thesis
    by (auto simp: markRead_def readdress_tables split: option.splits)
      (simp_all add: readdress_def)
qed

lemma getNotifications_readdress:
  "getNotifications (readdress g s) u q
     = map_sum id (\<lambda>l. l\<lparr>nl_notifications := map (readdressRow g) (nl_notifications l)\<rparr>)
         (getNotifications s u q)"
proof -
  have sorted: "sortRowsBy (\<lambda>a b. ntf_sentAt b \<le> ntf_sentAt a) (map (readdressRow g) rows)
      = map (readdressRow g) (sortRowsBy (\<lambda>a b. ntf_sentAt b \<le> ntf_sentAt a) rows)" for rows
    by (rule sortRowsBy_map) (simp add: readdressRow_fields)
  show ?thesis
    by (simp add: getNotifications_def Let_def readdress_tables unreadCount_readdress
        filter_map o_def readdressRow_fields sorted take_map split: option.splits)
qed

section \<open>Notifications: the recipient list is addressing only\<close>

text \<open>
  Claim C10. For a member of the family of a notification, whether or not the member is
  in the notification's recipient list, \<open>markRead\<close> succeeds, and as long as the member
  has no read row for it the notification is one of those \<open>unreadCount\<close> counts. Replacing
  the recipient lists of all notifications by arbitrary ones changes no answer of
  \<open>markRead\<close>, no read row it writes, no \<open>unreadCount\<close>, and nothing in a listing but the
  recipient lists shown.
\<close>

theorem read_tracking_ignores_recipients:
  assumes member: "resolveMembership s userId = Some familyId"
    and row: "n \<in> set (notifications s)"
    and fam: "ntf_familyId n = familyId"
  shows "fst (markRead s userId (ntf_id n) now) = Inr ()
         \<and> (\<not> hasReadRow s (ntf_id n) userId \<longrightarrow>
              unreadCount s familyId userId
                = Suc (unreadCount (s\<lparr>notifications := remove1 n (notifications s)\<rparr>)
                         familyId userId))
         \<and> markRead (readdress g s) u i now
             = (fst (markRead s u i now), readdress g (snd (markRead s u i now)))
         \<and> unreadCount (readdress g s) f u = unreadCount s f u
         \<and> getNotifications (readdress g s) u q
             = map_sum id (\<lambda>l. l\<lparr>nl_notifications := map (readdressRow g) (nl_notifications l)\<rparr>)
                 (getNotifications s u q)"
proof -
  have ok: "fst (markRead s userId (ntf_id n) now) = Inr ()"
    by (simp add: markRead_succeeds[OF member row fam])
  have counted: "unreadCount s familyId userId
                = Suc (unreadCount (s\<lparr>notifications := remove1 n (notifications s)\<rparr>)
                         familyId userId)"
    if "\<not> hasReadRow s (ntf_id n) userId"
    using countWhere_remove1[OF row,
        of "\<lambda>x. ntf_familyId x = familyId \<and> \<not> hasReadRow s (ntf_id x) userId"] that fam
    by (simp add: unreadCount_def hasReadRow_def)
  show ?thesis
    using ok counted markRead_readdress[of g s u i now] unreadCount_readdress[of g s f u]
      getNotifications_readdress[of g s u q]
    by blast
qed

theorem read_tracking_ignores_recipients_witness:
  "resolveMembership sampleDb 2 = Some 1
   \<and> sampleNotification 1 1 [1] 50 \<in> set (notifications sampleDb)
   \<and> ntf_familyId (sampleNotification 1 1 [1] 50) = 1
   \<and> 2 \<notin> set (ntf_recipients (sampleNotification 1 1 [1] 50))
   \<and> fst (markRead sampleDb 2 1 100) = Inr ()
   \<and> \<not> hasReadRow sampleDb 1 2
   \<and> unreadCount sampleDb 1 2 = 2
   \<and> unreadCount
        (sampleDb\<lparr>notifications := remove1 (sampleNotification 1 1 [1] 50) (notifications sampleDb)\<rparr>)
        1 2 = 1"
proof -
  have out: "2 \<notin> set (ntf_recipients (sampleNotification 1 1 [1] 50))"
    by (simp add: sampleNotification_def)
  have unread: "\<not> hasReadRow sampleDb 1 2"
    by (simp add: hasReadRow_def sampleDb_def)
  have two: "unreadCount sampleDb 1 2 = 2"
    by (simp add: unreadCount_def countWhere_def hasReadRow_def sampleDb_def
        sampleNotification_def)
  note t = read_tracking_ignores_recipients[OF sample_member2 sample_notification1(1,3),
      of 100 "\<lambda>_. []" 2 1 1 allNotifications, unfolded sample_notification1(2)]
  note ok = t[THEN conjunct1]
  note counted = t[THEN conjunct2, THEN conjunct1, rule_format, OF unread]
  have one: "unreadCount
        (sampleDb\<lparr>notifications := remove1 (sampleNotification 1 1 [1] 50) (notifications sampleDb)\<rparr>)
        1 2 = 1"
    using counted two by simp
  show ?thesis
    by (intro conjI sample_member2 sample_notification1(1,3) out ok unread two one)
qed

lemma msPerDay_value: "msPerDay = 86400000"
  by (simp add: msPerDay_def)

lemma daysUntilExpiry_negative:
  "daysUntilExpiry today e < 0 \<longleftrightarrow> e \<le> today - msPerDay"
proof -
  have "daysUntilExpiry today e < 0 \<longleftrightarrow> (of_int (e - today) :: rat) / 86400000 \<le> - 1"
    by (simp add: daysUntilExpiry_def msPerDay_value ceiling_less_iff)
  also have "\<dots> \<longleftrightarrow> (of_int (e - today) :: rat) \<le> of_int (- 86400000)"
    by (simp add: pos_divide_le_eq)
  also have "\<dots> \<longleftrightarrow> e - today \<le> - 86400000"
    by (simp only: of_int_le_iff)
  finally show ?thesis by (simp add: msPerDay_value) linarith
qed

lemma daysUntilExpiry_within:
  "daysUntilExpiry today e \<le> 2 \<longleftrightarrow> e \<le> today + 2 * msPerDay"
proof -
  have "daysUntilExpiry today e \<le> 2 \<longleftrightarrow> (of_int (e - today) :: rat) / 86400000 \<le> 2"
    by (simp add: daysUntilExpiry_def msPerDay_value ceiling_le_iff)
  also have "\<dots> \<longleftrightarrow> (of_int (e - today) :: rat) \<le> of_int (2 * 86400000)"
    by (simp add: pos_divide_le_eq)
  also have "\<dots> \<longleftrightarrow> e - today \<le> 2 * 86400000"
    by (simp only: of_int_le_iff)
  finally show ?thesis by (simp add: msPerDay_value) linarith
qed

lemma getExpiryStatus_bounds:
  "getExpiryStatus today item =
     (case item_expiryDate item of
        None \<Rightarrow> Fresh
      | Some e \<Rightarrow> if e \<le> today - msPerDay then Expired
                  else if e \<le> today + 2 * msPerDay then Expiring else Fresh)"
  by (simp add: getExpiryStatus_def daysUntilExpiry_negative daysUntilExpiry_within
      split: option.splits)

section \<open>Expiry classification\<close>

text \<open>
  Claim C8, as amended. The classification depends on the instant of the call and on the
  expiry date of the item only; the warning window is fixed at 2 days. An item without
  expiry date is fresh; an item whose expiry date lies one full day or more before the
  instant of the call is expired; an item whose expiry date lies between the instant of
  the call and 2 days later is expiring; an item whose expiry date lies more than 2 days
  ahead is fresh. In particular, at any time of day \<open>t\<close> of day \<open>d\<close>, an item expiring at
  the start of day \<open>d + 1\<close> is expiring and an item that expired at the start of day
  \<open>d - 1\<close> is expired.
\<close>

theorem getExpiryStatus_fixed_window:
  "(item_expiryDate item = None \<longrightarrow> getExpiryStatus today item = Fresh)
   \<and> (item_expiryDate item = Some e \<and> e \<le> today - msPerDay \<longrightarrow>
        getExpiryStatus today item = Expired)
   \<and> (item_expiryDate item = Some e \<and> today \<le> e \<and> e \<le> today + 2 * msPerDay \<longrightarrow>
        getExpiryStatus today item = Expiring)
   \<and> (item_expiryDate item = Some e \<and> today + 2 * msPerDay < e \<longrightarrow>
        getExpiryStatus today item = Fresh)
   \<and> (0 \<le> t \<and> t < msPerDay \<longrightarrow>
        getExpiryStatus (d * msPerDay + t) (item\<lparr>item_expiryDate := Some ((d + 1) * msPerDay)\<rparr>)
          = Expiring
        \<and> getExpiryStatus (d * msPerDay + t) (item\<lparr>item_expiryDate := Some ((d - 1) * msPerDay)\<rparr>)
          = Expired)"
proof -
  have pos: "0 < msPerDay" by (simp add: msPerDay_def)
  have days: "getExpiryStatus (d * msPerDay + t) (item\<lparr>item_expiryDate := Some ((d + 1) * msPerDay)\<rparr>)
          = Expiring
        \<and> getExpiryStatus (d * msPerDay + t) (item\<lparr>item_expiryDate := Some ((d - 1) * msPerDay)\<rparr>)
          = Expired"
    if "0 \<le> t" "t < msPerDay"
    using that pos by (simp add: getExpiryStatus_bounds algebra_simps)
  show ?thesis
    using pos days by (auto simp: getExpiryStatus_bounds)
qed

theorem getExpiryStatus_fixed_window_witness:
  "item_expiryDate (sampleItem 1 1 ''Milk'' 2 None True) = None
   \<and> getExpiryStatus 1000 (sampleItem 1 1 ''Milk'' 2 None True) = Fresh
   \<and> (1000 - 2 * msPerDay) \<le> 1000 - msPerDay
   \<and> getExpiryStatus 1000 (sampleItem 1 1 ''Milk'' 2 (Some (1000 - 2 * msPerDay)) True) = Expired
   \<and> 1000 \<le> 1000 + msPerDay \<and> 1000 + msPerDay \<le> 1000 + 2 * msPerDay
   \<and> getExpiryStatus 1000 (sampleItem 1 1 ''Milk'' 2 (Some (1000 + msPerDay)) True) = Expiring
   \<and> 1000 + 2 * msPerDay < 1000 + 3 * msPerDay
   \<and> getExpiryStatus 1000 (sampleItem 1 1 ''Milk'' 2 (Some (1000 + 3 * msPerDay)) True) = Fresh
   \<and> (0::int) \<le> 36000000 \<and> 36000000 < msPerDay
   \<and> getExpiryStatus (20000 * msPerDay + 36000000)
        (sampleItem 1 1 ''Milk'' 2 (Some (20001 * msPerDay)) True) = Expiring
   \<and> getExpiryStatus (20000 * msPerDay + 36000000)
        (sampleItem 1 1 ''Milk'' 2 (Some (19999 * msPerDay)) True) = Expired"
proof -
  let ?it = "\<lambda>e. sampleItem 1 1 ''Milk'' 2 e True"
  have upd: "\<And>e e'. (?it e)\<lparr>item_expiryDate := e'\<rparr> = ?it e'"
    by (simp add: sampleItem_def)
  have sel: "\<And>e. item_expiryDate (?it e) = e" by (simp add: sampleItem_def)
  have a1: "(1000 - 2 * msPerDay) \<le> 1000 - msPerDay" by (simp add: msPerDay_def)
  have a2: "1000 \<le> 1000 + msPerDay \<and> 1000 + msPerDay \<le> 1000 + 2 * msPerDay"
    by (simp add: msPerDay_def)
  have a3: "1000 + 2 * msPerDay < 1000 + 3 * msPerDay" by (simp add: msPerDay_def)
  have a4: "(0::int) \<le> 36000000 \<and> 36000000 < msPerDay" by (simp add: msPerDay_def)
  have c0: "getExpiryStatus 1000 (?it None) = Fresh"
    using getExpiryStatus_fixed_window[of "?it None" 1000, THEN conjunct1] sel by simp
  have c1: "getExpiryStatus 1000 (?it (Some (1000 - 2 * msPerDay))) = Expired"
    using getExpiryStatus_fixed_window[of "?it (Some (1000 - 2 * msPerDay))" 1000
        "1000 - 2 * msPerDay", THEN conjunct2, THEN conjunct1] sel a1 by simp
  have c2: "getExpiryStatus 1000 (?it (Some (1000 + msPerDay))) = Expiring"
    using getExpiryStatus_fixed_window[of "?it (Some (1000 + msPerDay))" 1000
        "1000 + msPerDay", THEN conjunct2, THEN conjunct2, THEN conjunct1] sel a2 by simp
  have c3: "getExpiryStatus 1000 (?it (Some (1000 + 3 * msPerDay))) = Fresh"
    using getExpiryStatus_fixed_window[of "?it (Some (1000 + 3 * msPerDay))" 1000
        "1000 + 3 * msPerDay", THEN conjunct2, THEN conjunct2, THEN conjunct2, THEN conjunct1]
      sel a3 by simp
  have c4: "getExpiryStatus (20000 * msPerDay + 36000000) (?it (Some (20001 * msPerDay))) = Expiring
     \<and> getExpiryStatus (20000 * msPerDay + 36000000) (?it (Some (19999 * msPerDay))) = Expired"
    using getExpiryStatus_fixed_window[of "?it None" _ _ 36000000 20000,
        THEN conjunct2, THEN conjunct2, THEN conjunct2, THEN conjunct2, unfolded upd] a4
    by simp
  show ?thesis
    using sel[of None] c0 a1 c1 a2 c2 a3 c3 a4 c4 by blast
qed

theorem getExpiryStatus_ignores_family_window:
  "getExpiryStatus 0 (sampleItem 1 1 ''Milk'' 2 (Some (4 * msPerDay)) True) = Fresh
   \<and> classifyExpiry_spec 0 5 (Some (4 * msPerDay)) = Expiring
   \<and> getExpiryStatus 0 (sampleItem 1 1 ''Milk'' 2 (Some (- 3600000)) True) = Expiring
   \<and> classifyExpiry_spec 0 2 (Some (- 3600000)) = Expired"
  by (simp add: getExpiryStatus_def classifyExpiry_spec_def daysUntilExpiry_def msPerDay_def
      sampleItem_def)

section \<open>Uniqueness of identifiers and read keys is kept\<close>

text \<open>
  The properties above assume that row identifiers are pairwise different and that the
  compound key of the read rows is unique, as the primary keys and the unique constraint
  of the database make them. The handlers keep both: a state in which they hold is
  followed by one in which they hold.
\<close>

lemma map_key_updateWhere:
  "(\<And>r. k (f r) = k r) \<Longrightarrow> map k (updateWhere P f rows) = map k rows"
  by (induction rows) (simp_all add: updateWhere_def)

lemma distinct_append_fresh:
  "distinct ids \<Longrightarrow> distinct (ids @ [freshId ids])"
  using freshId_notin[of ids] by simp

lemma item_ids_addItem:
  assumes "distinct (map item_id (inventoryItems s))"
  shows "distinct (map item_id (inventoryItems (snd (addItem s userId body now))))"
proof -
  have upd: "\<And>e q. map item_id (updateWhere (\<lambda>r. item_id r = item_id e)
        (\<lambda>r. r\<lparr>item_quantity := q, item_updatedAt := now\<rparr>) (inventoryItems s))
      = map item_id (inventoryItems s)"
    by (rule map_key_updateWhere) simp
  show ?thesis
    using assms distinct_append_fresh[OF assms]
    by (auto simp: addItem_def Let_def upd newItem_def split: option.splits)
qed

lemma item_ids_updateItem:
  assumes "distinct (map item_id (inventoryItems s))"
  shows "distinct (map item_id (inventoryItems (snd (updateItem s userId itemId body now))))"
proof -
  have "map item_id (updateWhere (\<lambda>r. item_id r = itemId)
        (\<lambda>r. (applyUpdateData body r)\<lparr>item_updatedAt := now\<rparr>) (inventoryItems s))
      = map item_id (inventoryItems s)"
    by (rule map_key_updateWhere) (simp add: applyUpdateData_fields)
  then show ?thesis
    using assms by (auto simp: updateItem_def Let_def split: option.splits)
qed

lemma item_ids_deleteItem:
  assumes "distinct (map item_id (inventoryItems s))"
  shows "distinct (map item_id (inventoryItems (snd (deleteItem s userId itemId now))))"
proof -
  have "map item_id (updateWhere (\<lambda>r. item_id r = itemId)
        (\<lambda>r. r\<lparr>item_isActive := False, item_updatedAt := now\<rparr>) (inventoryItems s))
      = map item_id (inventoryItems s)"
    by (rule map_key_updateWhere) simp
  then show ?thesis
    using assms by (auto simp: deleteItem_def split: option.splits)
qed

lemma notification_ids_sendNotification:
  assumes "distinct (map ntf_id (notifications s))"
  shows "distinct (map ntf_id (notifications (snd (sendNotification s userId body now))))"
  using assms distinct_append_fresh[OF assms]
  by (auto simp: sendNotification_def createNotification_def Let_def split: option.splits)

lemma notification_ids_markRead:
  assumes "distinct (map ntf_id (notifications s))"
  shows "distinct (map ntf_id (notifications (snd (markRead s userId notificationId now))))"
  using assms by (simp add: markRead_notifications)

lemma read_keys_markRead:
  assumes "countWhere (isReadKey n u) (notificationReads s) \<le> 1"
  shows "countWhere (isReadKey n u) (notificationReads (snd (markRead s reader i now))) \<le> 1"
proof -
  from markRead_shape[of s reader i now] show ?thesis
  proof (elim disjE exE conjE)
    fix e assume "markRead s reader i now = (Inl e, s)"
    then show ?thesis using assms by simp
  next
    fix familyId x
    assume run: "markRead s reader i now =
        (Inr (), s\<lparr>notificationReads := upsertRead i reader now (notificationReads s)\<rparr>)"
    have rd: "notificationReads (snd (markRead s reader i now))
        = upsertRead i reader now (notificationReads s)"
      by (simp add: run)
    show ?thesis
    proof (cases "i = n \<and> reader = u")
      case True
      have "countWhere (isReadKey n u) (upsertRead n u now (notificationReads s)) = 1"
        by (rule upsertRead_count[OF assms])
      then show ?thesis unfolding rd using True by simp
    next
      case False
      have "countWhere (isReadKey n u) (upsertRead i reader now (notificationReads s))
          = countWhere (isReadKey n u) (notificationReads s)"
      proof (cases "\<exists>r \<in> set (notificationReads s). nr_notificationId r = i \<and> nr_userId r = reader")
        case True
        show ?thesis unfolding upsertRead_old[OF True, of now]
          by (rule countWhere_updateWhere_keys) (simp add: isReadKey_def)
      next
        case no: False
        show ?thesis unfolding upsertRead_new[OF no, of now]
          using False by (auto simp: countWhere_def isReadKey_def)
      qed
      then show ?thesis unfolding rd using assms by simp
    qed
  qed
qed

end
